theory Spec2Isabelle
  imports Main "HOL-Library.Char_ord" "HOL-Library.List_Lexorder" "HOL-Library.Multiset"
begin

section \<open>The auto-sync coordinator (UserDataAutoSyncService)\<close>

text \<open>
  The coordinator owns four pieces of mutable state (\<open>autoSync\<close>, \<open>successiveFailures\<close>,
  \<open>lastSyncTriggerTime\<close>, \<open>sources\<close>) and talks to collaborators whose code is not part of
  the sources at hand: the enablement service, the authentication token service, the sync
  service and the trigger delayer.  The state of the first two that the coordinator reads
  back (\<open>isEnabled()\<close>, truthiness of \<open>token\<close>) is kept as two flags; every call that the
  coordinator makes on a collaborator, and every event or log line it emits, is appended
  to \<open>events\<close> in program order.

  \<open>successiveFailures\<close> is a JavaScript number that only ever holds a count; it is a
  \<open>nat\<close> here (a double represents every count below \<open>2^53\<close> exactly).  Timestamps are
  the integral millisecond values of \<open>Date.getTime()\<close>.
\<close>

datatype UserDataSyncErrorCode =
    TurnedOff
  | SessionExpired
  | LocalTooManyRequests
  | OtherCode string

record UserDataSyncError =
  code :: UserDataSyncErrorCode
  message :: string

datatype coordinator_event =
    LogInfo string
  | LogDebug string
  | LogError UserDataSyncError
  | SetEnablement bool
  | DelayerCancel
  | DelayerTrigger nat
  | AutoSyncCreate nat
  | AutoSyncStart
  | AutoSyncClear
  | ResetLocal
  | OnErrorFire UserDataSyncError

record coordinator =
  enablement :: bool
  tokenAvailable :: bool
  autoSync :: bool
  successiveFailures :: nat
  lastSyncTriggerTime :: "int option"
  sources :: "string list"
  pendingDelay :: "nat option"
  events :: "coordinator_event list"

definition RESOURCE_ENABLEMENT_SOURCE :: string where
  "RESOURCE_ENABLEMENT_SOURCE = ''resourceEnablement''"

definition emit :: "coordinator_event \<Rightarrow> coordinator \<Rightarrow> coordinator" where
  "emit e s = s\<lparr>events := events s @ [e]\<rparr>"

text \<open>
  Modelled from the spec: the trigger delayer (\<open>Delayer\<close> of \<open>vs/base/common/async\<close>) is
  not among the sources.  It holds one pending-call slot: \<open>trigger\<close> replaces the slot and
  its deadline, \<open>cancel\<close> clears it.
\<close>

definition delayerCancel :: "coordinator \<Rightarrow> coordinator" where
  "delayerCancel s = emit DelayerCancel (s\<lparr>pendingDelay := None\<rparr>)"

definition delayerTrigger :: "nat \<Rightarrow> coordinator \<Rightarrow> coordinator" where
  "delayerTrigger d s = emit (DelayerTrigger d) (s\<lparr>pendingDelay := Some d\<rparr>)"

text \<open>
  Modelled from the spec: \<open>setEnablement\<close> of the enablement service flips the persisted
  enablement flag that \<open>isEnabled()\<close> reads back.
\<close>

definition setEnablement :: "bool \<Rightarrow> coordinator \<Rightarrow> coordinator" where
  "setEnablement b s = emit (SetEnablement b) (s\<lparr>enablement := b\<rparr>)"

definition isAutoSyncEnabled :: "coordinator \<Rightarrow> bool \<times> string option" where
  "isAutoSyncEnabled s =
     (if \<not> enablement s then (False, Some ''sync is disabled'')
      else if \<not> tokenAvailable s then (False, Some ''token is not avaialable'')
      else (True, None))"

text \<open>\<open>startAutoSync()\<close> returns \<open>true\<close> outside of tests; it is a parameter.\<close>

definition updateAutoSync :: "bool \<Rightarrow> coordinator \<Rightarrow> coordinator" where
  "updateAutoSync startAutoSync s =
     (case isAutoSyncEnabled s of
        (True, _) \<Rightarrow>
          (if \<not> autoSync s then
             (let s1 = emit (AutoSyncCreate (1000 * 60 * 5)) (s\<lparr>autoSync := True\<rparr>)
              in if startAutoSync then emit AutoSyncStart s1 else s1)
           else s)
      | (False, reason) \<Rightarrow>
          (let s1 = delayerCancel s
           in if autoSync s1 then
                emit AutoSyncClear
                  (emit (LogInfo (''Auto Sync: Disabled because '' @ (case reason of Some r \<Rightarrow> r | None \<Rightarrow> [])))
                     s1)
                \<lparr>autoSync := False\<rparr>
              else s1))"

definition enable :: "bool \<Rightarrow> coordinator \<Rightarrow> coordinator" where
  "enable startAutoSync s = updateAutoSync startAutoSync (setEnablement True s)"

definition disable :: "bool \<Rightarrow> coordinator \<Rightarrow> coordinator" where
  "disable startAutoSync s = updateAutoSync startAutoSync (setEnablement False s)"

text \<open>The listener registered on \<open>onDidStartSync\<close>.\<close>

definition onDidStartSync :: "int \<Rightarrow> coordinator \<Rightarrow> coordinator" where
  "onDidStartSync now s = s\<lparr>lastSyncTriggerTime := Some now\<rparr>"

text \<open>
  \<open>onDidFinishSync\<close>.  The raw error type \<open>'e\<close> and its normalisation
  \<open>UserDataSyncError.toUserDataSyncError\<close> are parameters, and so is the outcome of the
  awaited \<open>userDataSyncService.resetLocal()\<close>: \<open>None\<close> when it returns, \<open>Some x\<close> when it
  rejects with \<open>x\<close>.  The result pairs the rejection of the handler's promise, if any, with
  the state the handler leaves behind.
\<close>

definition onDidFinishSync ::
  "bool \<Rightarrow> ('e \<Rightarrow> UserDataSyncError) \<Rightarrow> 'e option \<Rightarrow> 'e option \<Rightarrow> coordinator \<Rightarrow> 'e option \<times> coordinator"
where
  "onDidFinishSync startAutoSync toUserDataSyncError resetLocal error s =
     (case error of
        None \<Rightarrow> (None, s\<lparr>successiveFailures := 0\<rparr>)
      | Some err \<Rightarrow>
          (let userDataSyncError = toUserDataSyncError err in
           if code userDataSyncError = TurnedOff \<or> code userDataSyncError = SessionExpired then
             (let s1 = emit ResetLocal (emit (LogInfo ''Auto Sync: Sync is turned off in the cloud.'') s)
              in case resetLocal of
                   Some x \<Rightarrow> (Some x, s1)
                 | None \<Rightarrow>
                     (None,
                      emit (OnErrorFire userDataSyncError)
                        (emit (LogInfo ''Auto Sync: Turned off sync because sync is turned off in the cloud'')
                           (disable startAutoSync s1))))
           else if code userDataSyncError = LocalTooManyRequests then
             (None,
              emit (OnErrorFire userDataSyncError)
                (emit (LogInfo ''Auto Sync: Turned off sync because of making too many requests to server'')
                   (disable startAutoSync s)))
           else
             (None,
              emit (OnErrorFire userDataSyncError)
                ((emit (LogError userDataSyncError) s)
                   \<lparr>successiveFailures := successiveFailures s + 1\<rparr>))))"

text \<open>
  The delay handed to the delayer (the conditional expression that closes
  \<open>triggerAutoSync\<close>).  \<open>Math.pow(2, n)\<close> is exact for every count up to 1023 and
  \<open>Infinity\<close> beyond, so \<open>Math.min(Math.pow(2, n), 60)\<close> is \<open>min (2 ^ n) 60\<close> for every count.
\<close>

definition triggerDelay :: "nat \<Rightarrow> nat" where
  "triggerDelay failures =
     (if failures \<noteq> 0 then 1000 * 1 * min (2 ^ failures) 60 else 1000)"

text \<open>
  \<open>Math.round(d / 1000)\<close> for an integral difference \<open>d\<close> of two timestamps:
  \<open>Math.round\<close> rounds to the nearest integer, a half upwards.
\<close>

definition roundSeconds :: "int \<Rightarrow> int" where
  "roundSeconds d = (d + 500) div 1000"

text \<open>
  \<open>this.lastSyncTriggerTime && ...\<close>: \<open>undefined\<close> and the number \<open>0\<close> are falsy.
\<close>

definition hasToLimitSync :: "string list \<Rightarrow> string list \<Rightarrow> bool" where
  "hasToLimitSync ALL_SYNC_RESOURCES srcs =
     (RESOURCE_ENABLEMENT_SOURCE \<notin> set srcs
      \<and> list_all (\<lambda>syncResource. syncResource \<notin> set srcs) ALL_SYNC_RESOURCES)"

definition limitedNow :: "int \<Rightarrow> coordinator \<Rightarrow> bool" where
  "limitedNow now s =
     (case lastSyncTriggerTime s of
        None \<Rightarrow> False
      | Some t \<Rightarrow> t \<noteq> 0 \<and> roundSeconds (now - t) < 10)"

text \<open>
  \<open>triggerAutoSync(sources)\<close>; \<open>ALL_SYNC_RESOURCES\<close> (declared outside the sources at hand)
  and the reading \<open>now\<close> of the clock are parameters.
\<close>

definition triggerAutoSync :: "string list \<Rightarrow> int \<Rightarrow> string list \<Rightarrow> coordinator \<Rightarrow> coordinator" where
  "triggerAutoSync ALL_SYNC_RESOURCES now srcs s =
     (if \<not> autoSync s then delayerCancel s
      else if hasToLimitSync ALL_SYNC_RESOURCES srcs \<and> limitedNow now s then
        emit (LogDebug ''Auto Sync Skipped: Limited to once per 10 seconds.'') s
      else
        delayerTrigger (triggerDelay (successiveFailures s)) (s\<lparr>sources := sources s @ srcs\<rparr>))"

text \<open>
  A trigger is dropped when the call leaves the pending slot and the accumulated sources
  as they were and only logs the skip.
\<close>

definition dropped :: "string list \<Rightarrow> int \<Rightarrow> string list \<Rightarrow> coordinator \<Rightarrow> bool" where
  "dropped ALL_SYNC_RESOURCES now srcs s =
     (triggerAutoSync ALL_SYNC_RESOURCES now srcs s =
        emit (LogDebug ''Auto Sync Skipped: Limited to once per 10 seconds.'') s)"

definition scheduled :: "string list \<Rightarrow> int \<Rightarrow> string list \<Rightarrow> coordinator \<Rightarrow> nat \<Rightarrow> bool" where
  "scheduled ALL_SYNC_RESOURCES now srcs s d =
     (triggerAutoSync ALL_SYNC_RESOURCES now srcs s =
        s\<lparr>sources := sources s @ srcs, pendingDelay := Some d, events := events s @ [DelayerTrigger d]\<rparr>)"

text \<open>
  The drop condition in the words of the specification: no source is the
  resource-enablement source, none is a registered resource kind, and the last started
  cycle was less than 10 seconds (10000 ms) ago.
\<close>

definition spec_dropCondition :: "string list \<Rightarrow> int \<Rightarrow> string list \<Rightarrow> coordinator \<Rightarrow> bool" where
  "spec_dropCondition ALL_SYNC_RESOURCES now srcs s =
     (RESOURCE_ENABLEMENT_SOURCE \<notin> set srcs
      \<and> list_all (\<lambda>r. r \<notin> set srcs) ALL_SYNC_RESOURCES
      \<and> (case lastSyncTriggerTime s of None \<Rightarrow> False | Some t \<Rightarrow> now - t < 10000))"

definition coordinator0 :: coordinator where
  "coordinator0 =
     \<lparr>enablement = True, tokenAvailable = True, autoSync = True, successiveFailures = 0,
      lastSyncTriggerTime = Some 1600000000000, sources = [], pendingDelay = None, events = []\<rparr>"

definition err0 :: "UserDataSyncErrorCode \<Rightarrow> UserDataSyncError" where
  "err0 c = \<lparr>code = c, message = ''failed''\<rparr>"

section \<open>The extensions synchroniser (ExtensionsSynchroniser)\<close>

subsection \<open>Data\<close>

text \<open>
  \<open>IExtensionIdentifier\<close> is \<open>{ id: string, uuid?: string }\<close>; the field \<open>id\<close> is named
  \<open>ext_id\<close>.  \<open>ISyncExtension\<close> is \<open>{ identifier, version?, disabled?, installed? }\<close>
  (the field \<open>identifier\<close> is named \<open>sync_identifier\<close>); the
  objects that \<open>JSON.parse\<close> yields for a version-1 payload also carry \<open>enabled\<close>, which the
  migration reads through a cast, so the field is part of the record.
\<close>

record IExtensionIdentifier =
  ext_id :: string
  uuid :: "string option"

datatype ExtensionType = System | User

record ILocalExtension =
  local_identifier :: IExtensionIdentifier
  local_type :: ExtensionType
  manifest_version :: string

record IGalleryExtension =
  gallery_identifier :: IExtensionIdentifier
  gallery_version :: string

record ISyncExtension =
  sync_identifier :: IExtensionIdentifier
  version :: "string option"
  disabled :: "bool option"
  installed :: "bool option"
  enabled :: "bool option"

record ISyncData =
  sd_version :: int
  content :: string

record IRemoteUserData =
  ref :: string
  syncData :: "ISyncData option"

record ILastSyncUserData = IRemoteUserData +
  ls_skippedExtensions :: "ISyncExtension list option"

record IMergeResult =
  m_added :: "ISyncExtension list"
  m_removed :: "IExtensionIdentifier list"
  m_updated :: "ISyncExtension list"
  m_remote :: "ISyncExtension list option"

record IExtensionsSyncPreviewResult =
  localExtensions :: "ISyncExtension list"
  remoteUserData :: IRemoteUserData
  lastSyncUserData :: "ILastSyncUserData option"
  added :: "ISyncExtension list"
  removed :: "IExtensionIdentifier list"
  updated :: "ISyncExtension list"
  remote :: "ISyncExtension list option"
  skippedExtensions :: "ISyncExtension list"
  hasLocalChanged :: bool
  hasRemoteChanged :: bool

datatype Error = Error string

datatype SyncStatus = Idle | Syncing

subsection \<open>Collaborators\<close>

text \<open>
  The synchroniser works through services whose code is not part of the sources at hand
  (extension management, gallery, enablement, the store and backup methods inherited from
  \<open>AbstractSynchroniser\<close>, \<open>merge\<close>, \<open>JSON\<close>).  Each call made on them is appended to a
  trace, in program order, and what a call answers is a parameter that may depend on the
  trace so far: \<open>Inl\<close> is a thrown exception (a rejected promise), \<open>Inr\<close> a returned value.
  Every operation of the synchroniser returns its own outcome together with the trace it
  leaves, so that the calls made before an exception are not lost.

  Log lines are left out of the trace.
\<close>

datatype call =
    GetInstalled "ExtensionType option"
  | GetDisabledExtensions
  | Uninstall ILocalExtension
  | GetCompatibleExtension IExtensionIdentifier "string option"
  | EnableExtension IExtensionIdentifier
  | DisableExtension IExtensionIdentifier
  | InstallFromGallery IGalleryExtension
  | BackupLocal string
  | UpdateRemoteUserData string "string option"
  | UpdateLastSyncUserData IRemoteUserData "ISyncExtension list"
  | GetLastSyncUserData
  | GetRemoteUserData "ILastSyncUserData option"
  | Merge "ISyncExtension list" "ISyncExtension list option" "ISyncExtension list option"
      "ISyncExtension list" "string list"
  | SetStatus SyncStatus

type_synonym trace = "call list"

type_synonym 'a outcome = "(Error + 'a) \<times> trace"

record services =
  isEnabled :: "trace \<Rightarrow> bool"
  getInstalled :: "trace \<Rightarrow> ExtensionType option \<Rightarrow> Error + ILocalExtension list"
  getDisabledExtensions :: "trace \<Rightarrow> Error + IExtensionIdentifier list"
  uninstall :: "trace \<Rightarrow> ILocalExtension \<Rightarrow> Error + unit"
  getCompatibleExtension ::
    "trace \<Rightarrow> IExtensionIdentifier \<Rightarrow> string option \<Rightarrow> Error + IGalleryExtension option"
  enableExtension :: "trace \<Rightarrow> IExtensionIdentifier \<Rightarrow> Error + unit"
  disableExtension :: "trace \<Rightarrow> IExtensionIdentifier \<Rightarrow> Error + unit"
  installFromGallery :: "trace \<Rightarrow> IGalleryExtension \<Rightarrow> Error + unit"
  backupLocal :: "trace \<Rightarrow> string \<Rightarrow> Error + unit"
  updateRemoteUserData :: "trace \<Rightarrow> string \<Rightarrow> string option \<Rightarrow> Error + IRemoteUserData"
  updateLastSyncUserData :: "trace \<Rightarrow> IRemoteUserData \<Rightarrow> ISyncExtension list \<Rightarrow> Error + unit"
  getLastSyncUserData :: "trace \<Rightarrow> Error + ILastSyncUserData option"
  getRemoteUserData :: "trace \<Rightarrow> ILastSyncUserData option \<Rightarrow> Error + IRemoteUserData"
  getIgnoredExtensions :: "trace \<Rightarrow> ILocalExtension list \<Rightarrow> string list"
  merge ::
    "ISyncExtension list \<Rightarrow> ISyncExtension list option \<Rightarrow> ISyncExtension list option \<Rightarrow>
     ISyncExtension list \<Rightarrow> string list \<Rightarrow> IMergeResult"
  stringify :: "ISyncExtension list \<Rightarrow> string"
  parse :: "string \<Rightarrow> Error + ISyncExtension list"
  formatJson :: "string \<Rightarrow> string"

subsection \<open>Identity of extensions\<close>

text \<open>A string-valued optional property is truthy when it is present and not empty.\<close>

definition truthy :: "string option \<Rightarrow> bool" where
  "truthy u = (case u of None \<Rightarrow> False | Some v \<Rightarrow> v \<noteq> [])"

definition lowerChar :: "char \<Rightarrow> char" where
  "lowerChar c =
     (if CHR ''A'' \<le> c \<and> c \<le> CHR ''Z'' then char_of (of_char c + (32::nat)) else c)"

definition toLowerCase :: "string \<Rightarrow> string" where
  "toLowerCase s = map lowerChar s"

text \<open>
  Modelled from the spec: \<open>areSameExtensions\<close> of \<open>extensionManagementUtil\<close> is not among
  the sources.  Identity equality is case-insensitive on \<open>id\<close>, or exact on \<open>uuid\<close> when
  both sides have one.
\<close>

definition areSameExtensions :: "IExtensionIdentifier \<Rightarrow> IExtensionIdentifier \<Rightarrow> bool" where
  "areSameExtensions a b =
     (if truthy (uuid a) \<and> truthy (uuid b) then uuid a = uuid b
      else toLowerCase (ext_id a) = toLowerCase (ext_id b))"

subsection \<open>\<open>format\<close>\<close>

text \<open>
  Modelled from the spec: \<open>compare\<close> of \<open>vs/base/common/strings\<close> is not among the sources;
  it orders strings lexicographically.
\<close>

definition compare :: "string \<Rightarrow> string \<Rightarrow> int" where
  "compare a b = (if a < b then - 1 else if b < a then 1 else 0)"

definition formatCompare :: "ISyncExtension \<Rightarrow> ISyncExtension \<Rightarrow> int" where
  "formatCompare e1 e2 =
     (if \<not> truthy (uuid (sync_identifier e1)) \<and> truthy (uuid (sync_identifier e2)) then - 1
      else if truthy (uuid (sync_identifier e1)) \<and> \<not> truthy (uuid (sync_identifier e2)) then 1
      else compare (ext_id (sync_identifier e1)) (ext_id (sync_identifier e2)))"

text \<open>
  \<open>Array.prototype.sort\<close> with a comparison function: a stable sort, here by insertion.
\<close>

fun insertBy :: "('a \<Rightarrow> 'a \<Rightarrow> int) \<Rightarrow> 'a \<Rightarrow> 'a list \<Rightarrow> 'a list" where
  "insertBy cmp x [] = [x]"
| "insertBy cmp x (y # ys) = (if cmp x y \<le> 0 then x # y # ys else y # insertBy cmp x ys)"

definition arraySort :: "('a \<Rightarrow> 'a \<Rightarrow> int) \<Rightarrow> 'a list \<Rightarrow> 'a list" where
  "arraySort cmp xs = foldr (insertBy cmp) xs []"

definition format :: "services \<Rightarrow> ISyncExtension list \<Rightarrow> string" where
  "format svc extensions = formatJson svc (stringify svc (arraySort formatCompare extensions))"

text \<open>
  The canonical order in the words of the specification: an item without a stable id
  never follows an item that has one, and within each group the ids ascend.
\<close>

definition spec_canonicalBefore :: "ISyncExtension \<Rightarrow> ISyncExtension \<Rightarrow> bool" where
  "spec_canonicalBefore e1 e2 =
     ((truthy (uuid (sync_identifier e1)) \<longrightarrow> truthy (uuid (sync_identifier e2)))
      \<and> (truthy (uuid (sync_identifier e1)) = truthy (uuid (sync_identifier e2))
           \<longrightarrow> ext_id (sync_identifier e1) \<le> ext_id (sync_identifier e2)))"

definition spec_canonical :: "ISyncExtension list \<Rightarrow> bool" where
  "spec_canonical xs = sorted_wrt spec_canonicalBefore xs"

subsection \<open>\<open>getLocalExtensions\<close> and \<open>hasLocalData\<close>\<close>

definition getLocalExtensions :: "services \<Rightarrow> ILocalExtension list \<Rightarrow> trace \<Rightarrow> ISyncExtension list outcome" where
  "getLocalExtensions svc installedExtensions tr =
     (case getDisabledExtensions svc tr of
        Inl err \<Rightarrow> (Inl err, tr @ [GetDisabledExtensions])
      | Inr disabledExtensions \<Rightarrow>
          (Inr (map (\<lambda>l.
                  \<lparr>sync_identifier = local_identifier l,
                   version = None,
                   disabled =
                     (if list_ex (\<lambda>disabledExtension. areSameExtensions disabledExtension (local_identifier l))
                           disabledExtensions
                      then Some True else None),
                   installed = (if local_type l = User then Some True else None),
                   enabled = None\<rparr>)
                installedExtensions),
           tr @ [GetDisabledExtensions]))"

text \<open>\<open>hasLocalData\<close>: the \<open>catch\<close> block swallows whatever the \<open>try\<close> block throws.\<close>

definition hasLocalData :: "services \<Rightarrow> trace \<Rightarrow> bool outcome" where
  "hasLocalData svc tr =
     (case getInstalled svc tr None of
        Inl err \<Rightarrow> (Inr False, tr @ [GetInstalled None])
      | Inr installedExtensions \<Rightarrow>
          (case getLocalExtensions svc installedExtensions (tr @ [GetInstalled None]) of
             (Inl err, tr') \<Rightarrow> (Inr False, tr')
           | (Inr locals, tr') \<Rightarrow>
               (if list_ex (\<lambda>e. installed e = Some True \<or> disabled e = Some True) locals
                then (Inr True, tr')
                else (Inr False, tr'))))"

subsection \<open>\<open>parseAndMigrateExtensions\<close>\<close>

text \<open>The body of the loop over the parsed items.\<close>

definition migrateExtension :: "int \<Rightarrow> ILocalExtension list \<Rightarrow> ISyncExtension \<Rightarrow> ISyncExtension" where
  "migrateExtension v systemExtensions extension =
     (let e1 =
        (if v = 1 then
           (if enabled extension = Some False then extension\<lparr>disabled := Some True\<rparr> else extension)
              \<lparr>enabled := None\<rparr>
         else extension)
      in if v = 2 then
           (if list_all (\<lambda>l. \<not> areSameExtensions (local_identifier l) (sync_identifier e1)) systemExtensions
            then e1\<lparr>installed := Some True\<rparr> else e1)
         else e1)"

definition parseAndMigrateExtensions :: "services \<Rightarrow> ISyncData \<Rightarrow> trace \<Rightarrow> ISyncExtension list outcome" where
  "parseAndMigrateExtensions svc sd tr =
     (case parse svc (content sd) of
        Inl err \<Rightarrow> (Inl err, tr)
      | Inr extensions \<Rightarrow>
          (if sd_version sd = 1 \<or> sd_version sd = 2 then
             (case getInstalled svc tr (Some System) of
                Inl err \<Rightarrow> (Inl err, tr @ [GetInstalled (Some System)])
              | Inr systemExtensions \<Rightarrow>
                  (Inr (map (migrateExtension (sd_version sd) systemExtensions) extensions),
                   tr @ [GetInstalled (Some System)]))
           else (Inr extensions, tr)))"

subsection \<open>\<open>updateLocalExtensions\<close>\<close>

text \<open>
  \<open>updateLocalExtensions\<close> hands two arrays of \<open>async\<close> callbacks to \<open>Promise.all\<close>.  Mapping
  an array starts every callback at once: each runs up to its first \<open>await\<close>, so the first
  call of every callback is issued, in the order of the array, before any callback goes on.
  The callbacks are then resumed in turns: in every turn each callback that still waits is
  resumed once, in the order of the array, with what the call it waits for has settled to,
  and runs up to its next \<open>await\<close> or to its end (the awaited promises settle in the order
  in which the calls were issued).  A rejected callback cancels none of the others: all of
  them run to their end, and \<open>Promise.all\<close> rejects with the first rejection.

  What a call settles to is determined when the call is issued, from the trace up to that
  point.  The callbacks share the trace and the two lists \<open>removeFromSkipped\<close> and
  \<open>addToSkipped\<close> that they push to; \<open>rejection\<close> holds the first rejection, if any.
\<close>

record shared =
  calls :: trace
  removeFromSkipped :: "IExtensionIdentifier list"
  addToSkipped :: "ISyncExtension list"
  rejection :: "Error option"

definition issue :: "call \<Rightarrow> shared \<Rightarrow> shared" where
  "issue c st = st\<lparr>calls := calls st @ [c]\<rparr>"

definition reject :: "Error \<Rightarrow> shared \<Rightarrow> shared" where
  "reject err st = (case rejection st of None \<Rightarrow> st\<lparr>rejection := Some err\<rparr> | Some first \<Rightarrow> st)"

text \<open>One step of every element of an array, in the order of the array.\<close>

fun eachInOrder :: "('a \<Rightarrow> 's \<Rightarrow> 'b \<times> 's) \<Rightarrow> 'a list \<Rightarrow> 's \<Rightarrow> 'b list \<times> 's" where
  "eachInOrder f [] s = ([], s)"
| "eachInOrder f (x # xs) s =
     (case f x s of (y, s1) \<Rightarrow> (case eachInOrder f xs s1 of (ys, s2) \<Rightarrow> (y # ys, s2)))"

fun turns :: "nat \<Rightarrow> ('t \<Rightarrow> 's \<Rightarrow> 't \<times> 's) \<Rightarrow> 't list \<Rightarrow> 's \<Rightarrow> 't list \<times> 's" where
  "turns 0 resume ts s = (ts, s)"
| "turns (Suc n) resume ts s = (case eachInOrder resume ts s of (ts1, s1) \<Rightarrow> turns n resume ts1 s1)"

text \<open>
  The callback that uninstalls, mapped over \<open>extensionsToRemove\<close>: it awaits \<open>uninstall\<close>
  and then pushes the identifier to \<open>removeFromSkipped\<close>.
\<close>

definition startUninstall ::
  "services \<Rightarrow> ILocalExtension \<Rightarrow> shared \<Rightarrow> (ILocalExtension \<times> (Error + unit)) \<times> shared"
where
  "startUninstall svc extensionToRemove st =
     ((extensionToRemove, uninstall svc (calls st) extensionToRemove),
      issue (Uninstall extensionToRemove) st)"

fun resumeUninstall :: "ILocalExtension \<times> (Error + unit) \<Rightarrow> shared \<Rightarrow> unit \<times> shared" where
  "resumeUninstall (extensionToRemove, Inl err) st = ((), reject err st)"
| "resumeUninstall (extensionToRemove, Inr u) st =
     ((), st\<lparr>removeFromSkipped := removeFromSkipped st @ [local_identifier extensionToRemove]\<rparr>)"

definition uninstallExtensions :: "services \<Rightarrow> ILocalExtension list \<Rightarrow> shared \<Rightarrow> shared" where
  "uninstallExtensions svc extensionsToRemove st =
     (case eachInOrder (startUninstall svc) extensionsToRemove st of
        (waiting, st1) \<Rightarrow> snd (eachInOrder resumeUninstall waiting st1))"

text \<open>\<open>disableExtension\<close> when \<open>e.disabled\<close> is truthy, \<open>enableExtension\<close> otherwise.\<close>

definition setEnablementOf ::
  "services \<Rightarrow> ISyncExtension \<Rightarrow> IExtensionIdentifier \<Rightarrow> shared \<Rightarrow> (Error + unit) \<times> shared"
where
  "setEnablementOf svc e ident st =
     (if disabled e = Some True
      then (disableExtension svc (calls st) ident, issue (DisableExtension ident) st)
      else (enableExtension svc (calls st) ident, issue (EnableExtension ident) st))"

text \<open>
  \<open>installedExtensions.filter(installed => areSameExtensions(installed.identifier, e.identifier))[0]\<close>:
  the first installed extension that is the same as \<open>e\<close>, \<open>undefined\<close> when there is none.
\<close>

definition installedExtensionOf :: "ILocalExtension list \<Rightarrow> ISyncExtension \<Rightarrow> ILocalExtension option" where
  "installedExtensionOf installedExtensions e =
     (case filter (\<lambda>i. areSameExtensions (local_identifier i) (sync_identifier e)) installedExtensions of
        [] \<Rightarrow> None
      | i # _ \<Rightarrow> Some i)"

text \<open>
  The callback mapped over \<open>[...added, ...updated]\<close>.  It awaits in up to four places; a
  stage names the \<open>await\<close> at which the callback stands, with what the awaited call settles
  to and the local constants that the rest of the callback reads.
\<close>

datatype stage =
    AwaitInstalled "Error + ILocalExtension list"
  | AwaitSystemToggle "Error + unit"
  | AwaitCompatible "ILocalExtension option" "Error + IGalleryExtension option"
  | AwaitToggle "ILocalExtension option" IGalleryExtension "Error + unit"
  | AwaitInstall IGalleryExtension "Error + unit"
  | Fulfilled
  | Rejected

definition startExtension :: "services \<Rightarrow> ISyncExtension \<Rightarrow> shared \<Rightarrow> (ISyncExtension \<times> stage) \<times> shared" where
  "startExtension svc e st =
     ((e, AwaitInstalled (getInstalled svc (calls st) None)), issue (GetInstalled None) st)"

fun resumeExtension ::
  "services \<Rightarrow> ISyncExtension \<times> stage \<Rightarrow> shared \<Rightarrow> (ISyncExtension \<times> stage) \<times> shared"
where
  "resumeExtension svc (e, AwaitInstalled (Inl err)) st = ((e, Rejected), reject err st)"
| "resumeExtension svc (e, AwaitInstalled (Inr installedExtensions)) st =
     (let installedExtension = installedExtensionOf installedExtensions e
      in if (case installedExtension of None \<Rightarrow> False | Some i \<Rightarrow> local_type i = System) then
           (case setEnablementOf svc e (sync_identifier e) st of
              (settled, st1) \<Rightarrow> ((e, AwaitSystemToggle settled), st1))
         else
           ((e, AwaitCompatible installedExtension
                  (getCompatibleExtension svc (calls st) (sync_identifier e) (version e))),
            issue (GetCompatibleExtension (sync_identifier e) (version e)) st))"
| "resumeExtension svc (e, AwaitSystemToggle (Inl err)) st = ((e, Rejected), reject err st)"
| "resumeExtension svc (e, AwaitSystemToggle (Inr u)) st =
     ((e, Fulfilled), st\<lparr>removeFromSkipped := removeFromSkipped st @ [sync_identifier e]\<rparr>)"
| "resumeExtension svc (e, AwaitCompatible installedExtension (Inl err)) st =
     ((e, Rejected), reject err st)"
| "resumeExtension svc (e, AwaitCompatible installedExtension (Inr None)) st =
     ((e, Fulfilled), st\<lparr>addToSkipped := addToSkipped st @ [e]\<rparr>)"
| "resumeExtension svc (e, AwaitCompatible installedExtension (Inr (Some extension))) st =
     (case setEnablementOf svc e (gallery_identifier extension) st of
        (settled, st1) \<Rightarrow> ((e, AwaitToggle installedExtension extension settled), st1))"
| "resumeExtension svc (e, AwaitToggle installedExtension extension (Inl err)) st =
     ((e, Fulfilled), st\<lparr>addToSkipped := addToSkipped st @ [e]\<rparr>)"
| "resumeExtension svc (e, AwaitToggle installedExtension extension (Inr u)) st =
     (if (case installedExtension of
            None \<Rightarrow> True
          | Some i \<Rightarrow> manifest_version i \<noteq> gallery_version extension)
      then ((e, AwaitInstall extension (installFromGallery svc (calls st) extension)),
            issue (InstallFromGallery extension) st)
      else ((e, Fulfilled), st))"
| "resumeExtension svc (e, AwaitInstall extension (Inl err)) st =
     ((e, Fulfilled), st\<lparr>addToSkipped := addToSkipped st @ [e]\<rparr>)"
| "resumeExtension svc (e, AwaitInstall extension (Inr u)) st =
     ((e, Fulfilled), st\<lparr>removeFromSkipped := removeFromSkipped st @ [gallery_identifier extension]\<rparr>)"
| "resumeExtension svc (e, Fulfilled) st = ((e, Fulfilled), st)"
| "resumeExtension svc (e, Rejected) st = ((e, Rejected), st)"

text \<open>
  A callback awaits at most four times (listing, gallery lookup, enablement, installation),
  so after four turns every callback has run to its end.
\<close>

definition applyExtensions :: "services \<Rightarrow> ISyncExtension list \<Rightarrow> shared \<Rightarrow> shared" where
  "applyExtensions svc es st =
     (case eachInOrder (startExtension svc) es st of
        (waiting, st1) \<Rightarrow> snd (turns 4 (resumeExtension svc) waiting st1))"


text \<open>The two loops that close \<open>updateLocalExtensions\<close>.\<close>

definition retainSkipped :: "ISyncExtension list \<Rightarrow> IExtensionIdentifier list \<Rightarrow> ISyncExtension list" where
  "retainSkipped skipped toRemove =
     filter (\<lambda>skippedExtension.
               \<not> list_ex (\<lambda>e. areSameExtensions e (sync_identifier skippedExtension)) toRemove)
       skipped"

fun pushSkipped :: "ISyncExtension list \<Rightarrow> ISyncExtension list \<Rightarrow> ISyncExtension list" where
  "pushSkipped newSkippedExtensions [] = newSkippedExtensions"
| "pushSkipped newSkippedExtensions (skippedExtension # rest) =
     pushSkipped
       (if \<not> list_ex (\<lambda>e. areSameExtensions (sync_identifier e) (sync_identifier skippedExtension)) newSkippedExtensions
        then newSkippedExtensions @ [skippedExtension]
        else newSkippedExtensions)
       rest"

text \<open>
  The first block of \<open>updateLocalExtensions\<close> (\<open>if (removed.length)\<close>) and the second
  (\<open>if (added.length || updated.length)\<close>), each ending in an awaited \<open>Promise.all\<close>.
\<close>

definition removeBlock :: "services \<Rightarrow> IExtensionIdentifier list \<Rightarrow> shared \<Rightarrow> shared" where
  "removeBlock svc rem st =
     (if rem \<noteq> [] then
        (case getInstalled svc (calls st) (Some User) of
           Inl err \<Rightarrow> reject err (issue (GetInstalled (Some User)) st)
         | Inr installedExtensions \<Rightarrow>
             uninstallExtensions svc
               (filter (\<lambda>l. list_ex (\<lambda>r. areSameExtensions (local_identifier l) r) rem)
                  installedExtensions)
               (issue (GetInstalled (Some User)) st))
      else st)"

definition applyBlock :: "services \<Rightarrow> ISyncExtension list \<Rightarrow> ISyncExtension list \<Rightarrow> shared \<Rightarrow> shared" where
  "applyBlock svc add upd st =
     (if add \<noteq> [] \<or> upd \<noteq> [] then applyExtensions svc (add @ upd) st else st)"

definition updateLocalExtensions ::
  "services \<Rightarrow> ISyncExtension list \<Rightarrow> IExtensionIdentifier list \<Rightarrow> ISyncExtension list \<Rightarrow>
   ISyncExtension list \<Rightarrow> trace \<Rightarrow> ISyncExtension list outcome"
where
  "updateLocalExtensions svc add rem upd skipped tr =
     (let st1 = removeBlock svc rem
                  \<lparr>calls = tr, removeFromSkipped = [], addToSkipped = [], rejection = None\<rparr>
      in case rejection st1 of
           Some err \<Rightarrow> (Inl err, calls st1)
         | None \<Rightarrow>
             (let st2 = applyBlock svc add upd st1
              in case rejection st2 of
                   Some err \<Rightarrow> (Inl err, calls st2)
                 | None \<Rightarrow>
                     (Inr (pushSkipped (retainSkipped skipped (removeFromSkipped st2)) (addToSkipped st2)),
                      calls st2)))"

text \<open>
  Pairwise distinct identities: no entry of the list is the same extension as a later one.
\<close>

definition distinctIdentities :: "ISyncExtension list \<Rightarrow> bool" where
  "distinctIdentities xs =
     sorted_wrt (\<lambda>a b. \<not> areSameExtensions (sync_identifier a) (sync_identifier b)) xs"

subsection \<open>\<open>apply\<close> and \<open>push\<close>\<close>

text \<open>
  \<open>apply\<close> (named \<open>applyPreview\<close>) in its three steps: the local step under
  \<open>if (hasLocalChanged)\<close>, the remote write under \<open>if (remote)\<close>, and the update of the last
  sync data under \<open>if (lastSyncUserData?.ref !== remoteUserData.ref)\<close>.
\<close>

definition applyLocal :: "services \<Rightarrow> IExtensionsSyncPreviewResult \<Rightarrow> trace \<Rightarrow> ISyncExtension list outcome" where
  "applyLocal svc p tr =
     (if hasLocalChanged p then
        (let c = stringify svc (localExtensions p)
         in case backupLocal svc tr c of
              Inl err \<Rightarrow> (Inl err, tr @ [BackupLocal c])
            | Inr _ \<Rightarrow>
                updateLocalExtensions svc (added p) (removed p) (updated p) (skippedExtensions p)
                  (tr @ [BackupLocal c]))
      else (Inr (skippedExtensions p), tr))"

definition applyRemote ::
  "services \<Rightarrow> IExtensionsSyncPreviewResult \<Rightarrow> bool \<Rightarrow> trace \<Rightarrow> IRemoteUserData outcome"
where
  "applyRemote svc p forcePush tr =
     (case remote p of
        None \<Rightarrow> (Inr (remoteUserData p), tr)
      | Some r \<Rightarrow>
          (let c = stringify svc r;
               expected = (if forcePush then None else Some (ref (remoteUserData p)))
           in (updateRemoteUserData svc tr c expected, tr @ [UpdateRemoteUserData c expected])))"

definition applyLastSync ::
  "services \<Rightarrow> IExtensionsSyncPreviewResult \<Rightarrow> IRemoteUserData \<Rightarrow> ISyncExtension list \<Rightarrow> trace \<Rightarrow> unit outcome"
where
  "applyLastSync svc p rud skipped tr =
     (if map_option ref (lastSyncUserData p) \<noteq> Some (ref rud)
      then (updateLastSyncUserData svc tr rud skipped, tr @ [UpdateLastSyncUserData rud skipped])
      else (Inr (), tr))"

definition applyPreview :: "services \<Rightarrow> IExtensionsSyncPreviewResult \<Rightarrow> bool \<Rightarrow> trace \<Rightarrow> unit outcome" where
  "applyPreview svc p forcePush tr =
     (case applyLocal svc p tr of
        (Inl err, tr1) \<Rightarrow> (Inl err, tr1)
      | (Inr skipped, tr1) \<Rightarrow>
          (case applyRemote svc p forcePush tr1 of
             (Inl err, tr2) \<Rightarrow> (Inl err, tr2)
           | (Inr rud, tr2) \<Rightarrow> applyLastSync svc p rud skipped tr2))"

text \<open>
  The preview that \<open>push\<close> hands to \<open>apply\<close>: the result of the merge, an empty skip list,
  and the remote and last-sync data as read.
\<close>

definition pushPreview ::
  "IMergeResult \<Rightarrow> ISyncExtension list \<Rightarrow> ILastSyncUserData option \<Rightarrow> IRemoteUserData \<Rightarrow>
   IExtensionsSyncPreviewResult"
where
  "pushPreview m locals lastSync rud =
     \<lparr>localExtensions = locals,
      remoteUserData = rud,
      lastSyncUserData = lastSync,
      added = m_added m,
      removed = m_removed m,
      updated = m_updated m,
      remote = m_remote m,
      skippedExtensions = [],
      hasLocalChanged = (m_added m \<noteq> [] \<or> m_removed m \<noteq> [] \<or> m_updated m \<noteq> []),
      hasRemoteChanged = (m_remote m \<noteq> None)\<rparr>"

text \<open>
  The \<open>try\<close> block of \<open>push\<close>; the \<open>finally\<close> block of \<open>push\<close> sets the status back on
  every path.
\<close>

definition pushBody :: "services \<Rightarrow> trace \<Rightarrow> unit outcome" where
  "pushBody svc tr =
     (let tr0 = tr @ [SetStatus Syncing]
      in case getInstalled svc tr0 None of
           Inl err \<Rightarrow> (Inl err, tr0 @ [GetInstalled None])
         | Inr installedExtensions \<Rightarrow>
             (case getLocalExtensions svc installedExtensions (tr0 @ [GetInstalled None]) of
                (Inl err, tr1) \<Rightarrow> (Inl err, tr1)
              | (Inr locals, tr1) \<Rightarrow>
                  (let ignoredExtensions = getIgnoredExtensions svc tr1 installedExtensions;
                       m = merge svc locals None None [] ignoredExtensions;
                       tr2 = tr1 @ [Merge locals None None [] ignoredExtensions]
                   in case getLastSyncUserData svc tr2 of
                        Inl err \<Rightarrow> (Inl err, tr2 @ [GetLastSyncUserData])
                      | Inr lastSync \<Rightarrow>
                          (let tr3 = tr2 @ [GetLastSyncUserData]
                           in case getRemoteUserData svc tr3 lastSync of
                                Inl err \<Rightarrow> (Inl err, tr3 @ [GetRemoteUserData lastSync])
                              | Inr rud \<Rightarrow>
                                  applyPreview svc (pushPreview m locals lastSync rud) True
                                    (tr3 @ [GetRemoteUserData lastSync])))))"

definition push :: "services \<Rightarrow> trace \<Rightarrow> unit outcome" where
  "push svc tr =
     (if \<not> isEnabled svc tr then (Inr (), tr)
      else (case pushBody svc tr of (res, tr') \<Rightarrow> (res, tr' @ [SetStatus Idle])))"

text \<open>The calls that a run appends to the trace it started from.\<close>

definition newCalls :: "trace \<Rightarrow> 'a outcome \<Rightarrow> call list" where
  "newCalls tr out = drop (length tr) (snd out)"

text \<open>
  A run extends the trace it started from by calls that all satisfy \<open>P\<close>.
\<close>

definition extendsBy :: "(call \<Rightarrow> bool) \<Rightarrow> trace \<Rightarrow> 'a outcome \<Rightarrow> bool" where
  "extendsBy P tr out = (take (length tr) (snd out) = tr \<and> list_all P (newCalls tr out))"

text \<open>The calls on the extension management, gallery and enablement services.\<close>

fun localCall :: "call \<Rightarrow> bool" where
  "localCall (GetInstalled t) = True"
| "localCall GetDisabledExtensions = True"
| "localCall (Uninstall l) = True"
| "localCall (GetCompatibleExtension i v) = True"
| "localCall (EnableExtension i) = True"
| "localCall (DisableExtension i) = True"
| "localCall (InstallFromGallery g) = True"
| "localCall c = False"


text \<open>
  What \<open>applyPreview\<close> may call: anything on the local services, a backup, an update of
  the last sync data, and one remote write, of the serialised \<open>remote\<close> list as it stands,
  with the reference of the preview's remote data unless the push is forced.
\<close>

definition applyCall :: "services \<Rightarrow> IExtensionsSyncPreviewResult \<Rightarrow> bool \<Rightarrow> call \<Rightarrow> bool" where
  "applyCall svc p forcePush c =
     (case c of
        UpdateRemoteUserData s expected \<Rightarrow>
          (case remote p of
             None \<Rightarrow> False
           | Some r \<Rightarrow>
               s = stringify svc r
               \<and> expected = (if forcePush then None else Some (ref (remoteUserData p))))
      | BackupLocal s \<Rightarrow> True
      | UpdateLastSyncUserData rud skipped \<Rightarrow> True
      | _ \<Rightarrow> localCall c)"

text \<open>
  What \<open>push\<close> may call: a merge only without remote and last-sync extensions and with an
  empty skip list, a remote write only without an expected reference.
\<close>

definition pushCall :: "call \<Rightarrow> bool" where
  "pushCall c =
     (case c of
        Merge locals remoteExtensions lastSyncExtensions skipped ignored \<Rightarrow>
          remoteExtensions = None \<and> lastSyncExtensions = None \<and> skipped = []
      | UpdateRemoteUserData s expected \<Rightarrow> expected = None
      | _ \<Rightarrow> True)"

subsection \<open>Notions for the interleaved callbacks\<close>

text \<open>The calls of a shared state grow, by calls on the local services only.\<close>

definition callsGrow :: "shared \<Rightarrow> shared \<Rightarrow> bool" where
  "callsGrow s s' =
     (take (length (calls s)) (calls s') = calls s
      \<and> list_all localCall (drop (length (calls s)) (calls s')))"











subsection \<open>Concrete collaborators for the worked runs\<close>

text \<open>
  One installed user extension \<open>pub.a\<close> (no uuid), a gallery that resolves only \<open>pub.b\<close>
  (uuid \<open>u-b\<close>), calls that all return, a store that answers every write with the
  reference \<open>r1\<close>, and a serialiser that lists the ids.
\<close>

definition pubA :: IExtensionIdentifier where
  "pubA = \<lparr>ext_id = ''pub.a'', uuid = None\<rparr>"

definition pubB :: IExtensionIdentifier where
  "pubB = \<lparr>ext_id = ''pub.b'', uuid = Some ''u-b''\<rparr>"

definition pubC :: IExtensionIdentifier where
  "pubC = \<lparr>ext_id = ''pub.c'', uuid = None\<rparr>"

definition syncExt :: "IExtensionIdentifier \<Rightarrow> ISyncExtension" where
  "syncExt i = \<lparr>sync_identifier = i, version = None, disabled = None, installed = Some True, enabled = None\<rparr>"

definition localA :: ILocalExtension where
  "localA = \<lparr>local_identifier = pubA, local_type = User, manifest_version = ''1.0.0''\<rparr>"

definition galleryB :: IGalleryExtension where
  "galleryB = \<lparr>gallery_identifier = pubB, gallery_version = ''2.0.0''\<rparr>"

definition demoStringify :: "ISyncExtension list \<Rightarrow> string" where
  "demoStringify xs = concat (map (\<lambda>e. ext_id (sync_identifier e) @ '';'') xs)"

definition demoMerge ::
  "ISyncExtension list \<Rightarrow> ISyncExtension list option \<Rightarrow> ISyncExtension list option \<Rightarrow>
   ISyncExtension list \<Rightarrow> string list \<Rightarrow> IMergeResult"
where
  "demoMerge locals remoteExtensions lastSyncExtensions skipped ignored =
     \<lparr>m_added = [], m_removed = [], m_updated = [],
      m_remote = (if remoteExtensions = None \<and> locals \<noteq> [] then Some locals else None)\<rparr>"

definition demoServices :: services where
  "demoServices =
     \<lparr>isEnabled = (\<lambda>tr. True),
      getInstalled =
        (\<lambda>tr t. Inr (filter (\<lambda>l. case t of None \<Rightarrow> True | Some k \<Rightarrow> local_type l = k) [localA])),
      getDisabledExtensions = (\<lambda>tr. Inr []),
      uninstall = (\<lambda>tr l. Inr ()),
      getCompatibleExtension =
        (\<lambda>tr i v. Inr (if ext_id i = ''pub.b'' then Some galleryB else None)),
      enableExtension = (\<lambda>tr i. Inr ()),
      disableExtension = (\<lambda>tr i. Inr ()),
      installFromGallery = (\<lambda>tr g. Inr ()),
      backupLocal = (\<lambda>tr c. Inr ()),
      updateRemoteUserData = (\<lambda>tr c expected. Inr \<lparr>ref = ''r1'', syncData = Some \<lparr>sd_version = 3, content = c\<rparr>\<rparr>),
      updateLastSyncUserData = (\<lambda>tr rud skipped. Inr ()),
      getLastSyncUserData = (\<lambda>tr. Inr None),
      getRemoteUserData = (\<lambda>tr lastSync. Inr \<lparr>ref = ''r0'', syncData = None\<rparr>),
      getIgnoredExtensions = (\<lambda>tr ls. []),
      merge = demoMerge,
      stringify = demoStringify,
      parse = (\<lambda>c. Inr [(syncExt pubA)\<lparr>enabled := Some False\<rparr>, syncExt pubB]),
      formatJson = (\<lambda>c. c)\<rparr>"

text \<open>
  A preview whose only change is local: \<open>pub.b\<close>, skipped in an earlier cycle, is to be
  installed, nothing is to be written, and the remote reference is the one of the last
  sync.
\<close>

definition previewLocalOnly :: IExtensionsSyncPreviewResult where
  "previewLocalOnly =
     \<lparr>localExtensions = [syncExt pubA],
      remoteUserData = \<lparr>ref = ''r0'', syncData = Some \<lparr>sd_version = 3, content = ''pub.a;pub.b;''\<rparr>\<rparr>,
      lastSyncUserData =
        Some \<lparr>ref = ''r0'', syncData = Some \<lparr>sd_version = 3, content = ''pub.a;pub.b;''\<rparr>,
              ls_skippedExtensions = Some [syncExt pubB]\<rparr>,
      added = [syncExt pubB], removed = [], updated = [],
      remote = None,
      skippedExtensions = [syncExt pubB],
      hasLocalChanged = True, hasRemoteChanged = False\<rparr>"

text \<open>
  A preview whose only change is remote: the list to write has \<open>pub.b\<close> (with a uuid)
  before \<open>pub.a\<close> (without).
\<close>

definition previewRemoteOnly :: IExtensionsSyncPreviewResult where
  "previewRemoteOnly =
     \<lparr>localExtensions = [syncExt pubB, syncExt pubA],
      remoteUserData = \<lparr>ref = ''r0'', syncData = None\<rparr>,
      lastSyncUserData = None,
      added = [], removed = [], updated = [],
      remote = Some [syncExt pubB, syncExt pubA],
      skippedExtensions = [],
      hasLocalChanged = False, hasRemoteChanged = True\<rparr>"

section \<open>Properties of the coordinator\<close>

lemma disable_effect:
  "disable st s =
     (if autoSync s then
        s\<lparr>enablement := False, autoSync := False, pendingDelay := None,
          events := events s @ [SetEnablement False, DelayerCancel,
                                LogInfo ''Auto Sync: Disabled because sync is disabled'', AutoSyncClear]\<rparr>
      else
        s\<lparr>enablement := False, pendingDelay := None,
          events := events s @ [SetEnablement False, DelayerCancel]\<rparr>)"
  by (simp add: disable_def updateAutoSync_def isAutoSyncEnabled_def setEnablement_def
      delayerCancel_def emit_def Let_def)

text \<open>
  Claim C1.  When a sync cycle finishes, \<open>onDidFinishSync\<close> classifies the outcome: without
  an error it resets \<open>successiveFailures\<close> to 0 and changes nothing else; on an error
  normalised to \<open>TurnedOff\<close> or \<open>SessionExpired\<close> it calls \<open>resetLocal\<close> and, once that has
  returned, disables auto-sync; on \<open>LocalTooManyRequests\<close> it disables auto-sync and never
  calls \<open>resetLocal\<close>; on every other error it increments \<open>successiveFailures\<close> and leaves
  the enablement flag and the running loop as they are.  In each error case the normalised
  error is fired on \<open>onError\<close>, as the last thing the handler does.
\<close>

theorem onDidFinishSync_classification:
  "onDidFinishSync st norm rl None s = (None, s\<lparr>successiveFailures := 0\<rparr>)
   \<and> (code (norm err) = TurnedOff \<or> code (norm err) = SessionExpired \<longrightarrow>
        onDidFinishSync st norm None (Some err) s =
          (None,
           s\<lparr>enablement := False, autoSync := False, pendingDelay := None,
             events := events s
               @ [LogInfo ''Auto Sync: Sync is turned off in the cloud.'', ResetLocal,
                  SetEnablement False, DelayerCancel]
               @ (if autoSync s
                  then [LogInfo ''Auto Sync: Disabled because sync is disabled'', AutoSyncClear]
                  else [])
               @ [LogInfo ''Auto Sync: Turned off sync because sync is turned off in the cloud'',
                  OnErrorFire (norm err)]\<rparr>))
   \<and> (code (norm err) = LocalTooManyRequests \<longrightarrow>
        onDidFinishSync st norm rl (Some err) s =
          (None,
           s\<lparr>enablement := False, autoSync := False, pendingDelay := None,
             events := events s
               @ [SetEnablement False, DelayerCancel]
               @ (if autoSync s
                  then [LogInfo ''Auto Sync: Disabled because sync is disabled'', AutoSyncClear]
                  else [])
               @ [LogInfo ''Auto Sync: Turned off sync because of making too many requests to server'',
                  OnErrorFire (norm err)]\<rparr>))
   \<and> (code (norm err) \<notin> {TurnedOff, SessionExpired, LocalTooManyRequests} \<longrightarrow>
        onDidFinishSync st norm rl (Some err) s =
          (None,
           s\<lparr>successiveFailures := successiveFailures s + 1,
             events := events s @ [LogError (norm err), OnErrorFire (norm err)]\<rparr>))"
  by (auto simp add: onDidFinishSync_def disable_effect emit_def Let_def)

text \<open>The three error classes at concrete errors, on a running coordinator.\<close>

theorem onDidFinishSync_classification_witness:
  "onDidFinishSync True err0 None (Some TurnedOff) coordinator0 =
     (None, coordinator0\<lparr>enablement := False, autoSync := False, pendingDelay := None,
        events := [LogInfo ''Auto Sync: Sync is turned off in the cloud.'', ResetLocal,
                  SetEnablement False, DelayerCancel,
                  LogInfo ''Auto Sync: Disabled because sync is disabled'', AutoSyncClear,
                  LogInfo ''Auto Sync: Turned off sync because sync is turned off in the cloud'',
                  OnErrorFire (err0 TurnedOff)]\<rparr>)
   \<and> onDidFinishSync True err0 None (Some LocalTooManyRequests) coordinator0 =
     (None, coordinator0\<lparr>enablement := False, autoSync := False, pendingDelay := None,
        events := [SetEnablement False, DelayerCancel,
                  LogInfo ''Auto Sync: Disabled because sync is disabled'', AutoSyncClear,
                  LogInfo ''Auto Sync: Turned off sync because of making too many requests to server'',
                  OnErrorFire (err0 LocalTooManyRequests)]\<rparr>)
   \<and> onDidFinishSync True err0 None (Some (OtherCode ''Unknown'')) coordinator0 =
     (None, coordinator0\<lparr>successiveFailures := 1,
        events := [LogError (err0 (OtherCode ''Unknown'')), OnErrorFire (err0 (OtherCode ''Unknown''))]\<rparr>)"
  using onDidFinishSync_classification [of True err0 None coordinator0 TurnedOff]
    onDidFinishSync_classification [of True err0 None coordinator0 LocalTooManyRequests]
    onDidFinishSync_classification [of True err0 None coordinator0 "OtherCode ''Unknown''"]
  by (simp add: err0_def coordinator0_def)

lemma triggerDelay_cap: "6 \<le> failures \<Longrightarrow> triggerDelay failures = 60000"
proof -
  assume h: "6 \<le> failures"
  have "(2::nat) ^ 6 \<le> 2 ^ failures" using h by (rule power_increasing) simp
  then have "(60::nat) \<le> 2 ^ failures" by simp
  then have "min ((2::nat) ^ failures) 60 = 60" by simp
  moreover have "failures \<noteq> 0" using h by simp
  ultimately show ?thesis by (simp add: triggerDelay_def)
qed

lemma scheduled_iff:
  "scheduled kinds now srcs s d \<longleftrightarrow>
     autoSync s \<and> \<not> (hasToLimitSync kinds srcs \<and> limitedNow now s) \<and> d = triggerDelay (successiveFailures s)"
  apply (simp add: scheduled_def triggerAutoSync_def delayerTrigger_def delayerCancel_def emit_def)
  apply (auto dest: arg_cong [where f = events] arg_cong [where f = pendingDelay])
  done

lemma dropped_iff:
  "dropped kinds now srcs s \<longleftrightarrow> autoSync s \<and> hasToLimitSync kinds srcs \<and> limitedNow now s"
  apply (simp add: dropped_def triggerAutoSync_def delayerTrigger_def delayerCancel_def emit_def)
  apply (auto dest: arg_cong [where f = events])
  done

text \<open>
  Claim C2.  Whenever \<open>triggerAutoSync\<close> schedules a sync, the scheduled delay is 1000 ms
  when \<open>successiveFailures\<close> is 0 and \<open>1000 * min (2 ^ successiveFailures) 60\<close> ms otherwise,
  and a call on a running loop that is not dropped does schedule with that delay; one
  failure gives 2000 ms, six give 60000 ms, and from six failures on (100, say) the delay
  stays 60000 ms.
\<close>

theorem triggerAutoSync_delay:
  "(scheduled kinds now srcs s d \<longrightarrow>
        d = (if successiveFailures s = 0 then 1000 else 1000 * min (2 ^ successiveFailures s) 60))
   \<and> (autoSync s \<and> \<not> dropped kinds now srcs s \<longrightarrow>
        scheduled kinds now srcs s
          (if successiveFailures s = 0 then 1000 else 1000 * min (2 ^ successiveFailures s) 60))
   \<and> triggerDelay 0 = 1000 \<and> triggerDelay 1 = 2000 \<and> triggerDelay 6 = 60000
   \<and> triggerDelay 100 = 60000
   \<and> (6 \<le> failures \<longrightarrow> triggerDelay failures = 60000)"
  using triggerDelay_cap [of failures] triggerDelay_cap [of 6] triggerDelay_cap [of 100]
  by (auto simp add: scheduled_iff dropped_iff triggerDelay_def)

text \<open>After seven failures a trigger 12 s after the last start is scheduled at 60000 ms.\<close>

theorem triggerAutoSync_delay_witness:
  "scheduled [''settings'', ''extensions''] 1600000012000 [''windowFocus'']
     (coordinator0\<lparr>successiveFailures := 7\<rparr>) 60000
   \<and> (6::nat) \<le> 7 \<and> triggerDelay 7 = 60000"
  using triggerAutoSync_delay [of "[''settings'', ''extensions'']" 1600000012000 "[''windowFocus'']"
      "coordinator0\<lparr>successiveFailures := 7\<rparr>" 60000 7]
  by (simp add: dropped_iff coordinator0_def hasToLimitSync_def limitedNow_def roundSeconds_def
      RESOURCE_ENABLEMENT_SOURCE_def)

text \<open>
  Claim C3 as stated fails: 9700 ms after the last started cycle a trigger whose only
  source is neither the resource-enablement source nor a resource kind meets the stated
  drop condition (less than 10 seconds ago), yet it is scheduled, because
  \<open>Math.round(9.7)\<close> is 10.
\<close>

theorem triggerAutoSync_drop_counterexample:
  "autoSync coordinator0
   \<and> spec_dropCondition [''settings'', ''extensions''] 1600000009700 [''windowFocus''] coordinator0
   \<and> \<not> dropped [''settings'', ''extensions''] 1600000009700 [''windowFocus''] coordinator0
   \<and> scheduled [''settings'', ''extensions''] 1600000009700 [''windowFocus''] coordinator0 1000"
  by (simp add: dropped_iff scheduled_iff spec_dropCondition_def coordinator0_def hasToLimitSync_def
      limitedNow_def roundSeconds_def RESOURCE_ENABLEMENT_SOURCE_def triggerDelay_def)

text \<open>
  Claim C3, amended.  While an auto-sync loop is active (and the recorded start time is
  not the timestamp 0), a trigger is dropped if and only if no source is the
  resource-enablement source, no source is a registered resource kind, and the time since
  the last started cycle, rounded to the nearest second, is below 10, that is, less than
  9500 ms have passed.  A trigger that carries the resource-enablement source is never
  dropped, whatever the timing.
\<close>

theorem triggerAutoSync_rate_limit:
  "autoSync s \<and> lastSyncTriggerTime s \<noteq> Some 0 \<longrightarrow>
     (dropped kinds now srcs s \<longleftrightarrow>
        RESOURCE_ENABLEMENT_SOURCE \<notin> set srcs
        \<and> (\<forall>r \<in> set kinds. r \<notin> set srcs)
        \<and> (\<exists>t. lastSyncTriggerTime s = Some t \<and> now - t < 9500))
     \<and> (RESOURCE_ENABLEMENT_SOURCE \<in> set srcs \<longrightarrow> \<not> dropped kinds now srcs s)"
  by (auto simp add: dropped_iff hasToLimitSync_def limitedNow_def roundSeconds_def list_all_iff
      split: option.splits)

text \<open>The threshold from both sides, and the resource-enablement source 1 ms after a start.\<close>

theorem triggerAutoSync_rate_limit_witness:
  "dropped [''settings'', ''extensions''] 1600000009499 [''windowFocus''] coordinator0
   \<and> \<not> dropped [''settings'', ''extensions''] 1600000009500 [''windowFocus''] coordinator0
   \<and> \<not> dropped [''settings'', ''extensions''] 1600000000001 [''windowFocus'', ''resourceEnablement''] coordinator0"
  using triggerAutoSync_rate_limit [of coordinator0 "[''settings'', ''extensions'']" 1600000009499 "[''windowFocus'']"]
    triggerAutoSync_rate_limit [of coordinator0 "[''settings'', ''extensions'']" 1600000009500 "[''windowFocus'']"]
    triggerAutoSync_rate_limit [of coordinator0 "[''settings'', ''extensions'']" 1600000000001 "[''windowFocus'', ''resourceEnablement'']"]
  by (simp add: coordinator0_def RESOURCE_ENABLEMENT_SOURCE_def)

subsection \<open>Arrays of callbacks\<close>

lemma eachInOrder_Cons:
  "eachInOrder f (x # xs) s =
     (fst (f x s) # fst (eachInOrder f xs (snd (f x s))), snd (eachInOrder f xs (snd (f x s))))"
  by (simp split: prod.splits)

lemma turns_Suc:
  "turns (Suc n) f ts s = turns n f (fst (eachInOrder f ts s)) (snd (eachInOrder f ts s))"
  by (simp split: prod.splits)



lemma eachInOrder_rel:
  assumes refl: "\<And>s. R s s"
    and trans: "\<And>a b c. R a b \<Longrightarrow> R b c \<Longrightarrow> R a c"
    and step: "\<And>x s. R s (snd (f x s))"
  shows "R s (snd (eachInOrder f xs s))"
proof (induction xs arbitrary: s)
  case Nil
  then show ?case by (simp add: refl)
next
  case (Cons x xs)
  have "R s (snd (f x s))" by (rule step)
  moreover have "R (snd (f x s)) (snd (eachInOrder f xs (snd (f x s))))" by (rule Cons.IH)
  ultimately have "R s (snd (eachInOrder f xs (snd (f x s))))" by (rule trans)
  then show ?case by (simp add: eachInOrder_Cons del: eachInOrder.simps(2))
qed

lemma turns_rel:
  assumes refl: "\<And>s. R s s"
    and trans: "\<And>a b c. R a b \<Longrightarrow> R b c \<Longrightarrow> R a c"
    and step: "\<And>x s. R s (snd (f x s))"
  shows "R s (snd (turns n f ts s))"
proof (induction n arbitrary: ts s)
  case 0
  then show ?case by (simp add: refl)
next
  case (Suc n)
  have "R s (snd (eachInOrder f ts s))"
    by (rule eachInOrder_rel [of R, OF refl trans step])
  moreover have "R (snd (eachInOrder f ts s))
                   (snd (turns n f (fst (eachInOrder f ts s)) (snd (eachInOrder f ts s))))"
    by (rule Suc.IH)
  ultimately have "R s (snd (turns n f (fst (eachInOrder f ts s)) (snd (eachInOrder f ts s))))"
    by (rule trans)
  then show ?case by (simp add: turns_Suc del: turns.simps(2))
qed



subsection \<open>The calls of the callbacks\<close>

lemma callsGrow_iff: "callsGrow s s' \<longleftrightarrow> (\<exists>evs. calls s' = calls s @ evs \<and> list_all localCall evs)"
proof
  assume "callsGrow s s'"
  then have "calls s' = calls s @ drop (length (calls s)) (calls s')
             \<and> list_all localCall (drop (length (calls s)) (calls s'))"
    by (metis callsGrow_def append_take_drop_id)
  then show "\<exists>evs. calls s' = calls s @ evs \<and> list_all localCall evs" by blast
next
  assume "\<exists>evs. calls s' = calls s @ evs \<and> list_all localCall evs"
  then show "callsGrow s s'" by (auto simp add: callsGrow_def)
qed

lemma callsGrow_refl: "callsGrow s s"
  by (simp add: callsGrow_iff)

lemma callsGrow_trans: "callsGrow a b \<Longrightarrow> callsGrow b c \<Longrightarrow> callsGrow a c"
  by (auto simp add: callsGrow_iff)

lemma callsGrow_reject: "callsGrow s (reject err s)"
  by (simp add: callsGrow_iff reject_def split: option.splits)

lemma callsGrow_startUninstall: "callsGrow s (snd (startUninstall svc x s))"
  by (simp add: callsGrow_iff startUninstall_def issue_def)

lemma callsGrow_resumeUninstall: "callsGrow s (snd (resumeUninstall t s))"
  by (induction t s rule: resumeUninstall.induct)
     (auto simp add: callsGrow_iff reject_def split: option.splits)

lemma callsGrow_startExtension: "callsGrow s (snd (startExtension svc e s))"
  by (simp add: callsGrow_iff startExtension_def issue_def)

lemma callsGrow_resumeExtension: "callsGrow s (snd (resumeExtension svc t s))"
  by (induction svc t s rule: resumeExtension.induct)
     (auto simp add: callsGrow_iff reject_def issue_def setEnablementOf_def Let_def
        split: option.splits)

lemma uninstallExtensions_alt:
  "uninstallExtensions svc xs s =
     snd (eachInOrder resumeUninstall (fst (eachInOrder (startUninstall svc) xs s))
            (snd (eachInOrder (startUninstall svc) xs s)))"
  by (simp add: uninstallExtensions_def split: prod.splits)

lemma applyExtensions_alt:
  "applyExtensions svc es s =
     snd (turns 4 (resumeExtension svc) (fst (eachInOrder (startExtension svc) es s))
            (snd (eachInOrder (startExtension svc) es s)))"
  by (simp add: applyExtensions_def split: prod.splits)

lemma callsGrow_uninstallExtensions: "callsGrow s (uninstallExtensions svc xs s)"
proof -
  have a: "callsGrow s (snd (eachInOrder (startUninstall svc) xs s))"
    by (rule eachInOrder_rel [of callsGrow, OF callsGrow_refl callsGrow_trans callsGrow_startUninstall])
  have b: "callsGrow (snd (eachInOrder (startUninstall svc) xs s))
             (snd (eachInOrder resumeUninstall (fst (eachInOrder (startUninstall svc) xs s))
                    (snd (eachInOrder (startUninstall svc) xs s))))"
    by (rule eachInOrder_rel [of callsGrow, OF callsGrow_refl callsGrow_trans callsGrow_resumeUninstall])
  show ?thesis
    using callsGrow_trans [OF a b] by (simp only: uninstallExtensions_alt)
qed

lemma callsGrow_applyExtensions: "callsGrow s (applyExtensions svc es s)"
proof -
  have a: "callsGrow s (snd (eachInOrder (startExtension svc) es s))"
    by (rule eachInOrder_rel [of callsGrow, OF callsGrow_refl callsGrow_trans callsGrow_startExtension])
  have b: "callsGrow (snd (eachInOrder (startExtension svc) es s))
             (snd (turns 4 (resumeExtension svc) (fst (eachInOrder (startExtension svc) es s))
                    (snd (eachInOrder (startExtension svc) es s))))"
    by (rule turns_rel [of callsGrow, OF callsGrow_refl callsGrow_trans callsGrow_resumeExtension])
  show ?thesis
    using callsGrow_trans [OF a b] by (simp only: applyExtensions_alt)
qed

lemma callsGrow_removeBlock: "callsGrow s (removeBlock svc rm s)"
proof -
  have i: "callsGrow s (issue (GetInstalled (Some User)) s)"
    by (simp add: callsGrow_iff issue_def)
  have r: "\<And>err. callsGrow s (reject err (issue (GetInstalled (Some User)) s))"
    using callsGrow_trans [OF i callsGrow_reject] .
  have u: "\<And>xs. callsGrow s (uninstallExtensions svc xs (issue (GetInstalled (Some User)) s))"
    using callsGrow_trans [OF i callsGrow_uninstallExtensions] .
  show ?thesis
    by (simp add: removeBlock_def callsGrow_refl r u split: sum.splits)
qed

lemma callsGrow_applyBlock: "callsGrow s (applyBlock svc ad up s)"
  by (simp add: applyBlock_def callsGrow_refl callsGrow_applyExtensions)

lemma updateLocalExtensions_trace:
  "\<exists>evs. snd (updateLocalExtensions svc ad rm up skipped tr) = tr @ evs \<and> list_all localCall evs"
proof -
  let ?s0 = "\<lparr>calls = tr, removeFromSkipped = [], addToSkipped = [], rejection = None\<rparr>"
  let ?s1 = "removeBlock svc rm ?s0"
  let ?s2 = "applyBlock svc ad up ?s1"
  have a: "callsGrow ?s0 ?s1" by (rule callsGrow_removeBlock)
  have b: "callsGrow ?s0 ?s2" using callsGrow_trans [OF a callsGrow_applyBlock] .
  show ?thesis
    using a b
    by (auto simp add: updateLocalExtensions_def Let_def callsGrow_iff split: option.splits)
qed

subsection \<open>The callbacks when only caught calls throw\<close>


























section \<open>Properties of the synchroniser\<close>

lemmas demo_defs = demoServices_def demoStringify_def demoMerge_def syncExt_def pubA_def pubB_def pubC_def
  localA_def galleryB_def areSameExtensions_def truthy_def toLowerCase_def lowerChar_def less_eq_char_def

lemmas run_defs = updateLocalExtensions_def removeBlock_def applyBlock_def applyExtensions_def
  uninstallExtensions_def startExtension_def startUninstall_def setEnablementOf_def installedExtensionOf_def
  retainSkipped_def issue_def reject_def Let_def eval_nat_numeral

lemma getLocalExtensions_ok:
  "getDisabledExtensions svc tr = Inr ds \<Longrightarrow>
   getLocalExtensions svc ls tr =
     (Inr (map (\<lambda>l. \<lparr>sync_identifier = local_identifier l, version = None,
                      disabled = (if list_ex (\<lambda>d. areSameExtensions d (local_identifier l)) ds then Some True else None),
                      installed = (if local_type l = User then Some True else None),
                      enabled = None\<rparr>) ls),
      tr @ [GetDisabledExtensions])"
  by (simp add: getLocalExtensions_def)

lemma getLocalExtensions_fail:
  "getDisabledExtensions svc tr = Inl err \<Longrightarrow>
   getLocalExtensions svc ls tr = (Inl err, tr @ [GetDisabledExtensions])"
  by (simp add: getLocalExtensions_def)

text \<open>
  Claim C10.  \<open>hasLocalData\<close> never throws: it always returns a boolean.  When listing the
  installed extensions fails, or reading the disabled extensions fails, the exception is
  swallowed and the answer is \<open>false\<close>; otherwise the answer is \<open>true\<close> if and only if some
  local extension is user-installed or disabled.
\<close>

theorem hasLocalData_never_throws:
  "(\<exists>b. fst (hasLocalData svc tr) = Inr b)
   \<and> (getInstalled svc tr None = Inl err \<longrightarrow> fst (hasLocalData svc tr) = Inr False)
   \<and> (getInstalled svc tr None = Inr ls \<and> getDisabledExtensions svc (tr @ [GetInstalled None]) = Inl err
        \<longrightarrow> fst (hasLocalData svc tr) = Inr False)
   \<and> (getInstalled svc tr None = Inr ls \<and> getDisabledExtensions svc (tr @ [GetInstalled None]) = Inr ds
        \<longrightarrow> fst (hasLocalData svc tr) =
              Inr (\<exists>l \<in> set ls. local_type l = User
                                 \<or> (\<exists>d \<in> set ds. areSameExtensions d (local_identifier l))))"
proof -
  have total: "\<exists>b. fst (hasLocalData svc tr) = Inr b"
    by (auto simp add: hasLocalData_def split: sum.splits prod.splits)
  have a: "getInstalled svc tr None = Inl err \<longrightarrow> fst (hasLocalData svc tr) = Inr False"
    by (simp add: hasLocalData_def)
  have b: "getInstalled svc tr None = Inr ls \<and> getDisabledExtensions svc (tr @ [GetInstalled None]) = Inl err
        \<longrightarrow> fst (hasLocalData svc tr) = Inr False"
    by (simp add: hasLocalData_def getLocalExtensions_fail)
  have c: "getInstalled svc tr None = Inr ls \<and> getDisabledExtensions svc (tr @ [GetInstalled None]) = Inr ds
        \<longrightarrow> fst (hasLocalData svc tr) =
              Inr (\<exists>l \<in> set ls. local_type l = User
                                 \<or> (\<exists>d \<in> set ds. areSameExtensions d (local_identifier l)))"
    by (auto simp add: hasLocalData_def getLocalExtensions_ok list_ex_iff)
  from total a b c show ?thesis by blast
qed

text \<open>One user extension installed; the listing failing; the enablement state failing.\<close>

theorem hasLocalData_never_throws_witness:
  "hasLocalData demoServices [] = (Inr True, [GetInstalled None, GetDisabledExtensions])
   \<and> hasLocalData (demoServices\<lparr>getInstalled := (\<lambda>tr t. Inl (Error ''io''))\<rparr>) [] = (Inr False, [GetInstalled None])
   \<and> hasLocalData (demoServices\<lparr>getDisabledExtensions := (\<lambda>tr. Inl (Error ''storage''))\<rparr>) []
       = (Inr False, [GetInstalled None, GetDisabledExtensions])"
  using hasLocalData_never_throws [of demoServices "[]" "Error ''io''" "[localA]" "[]"]
    hasLocalData_never_throws [of "demoServices\<lparr>getInstalled := (\<lambda>tr t. Inl (Error ''io''))\<rparr>" "[]" "Error ''io''" "[localA]" "[]"]
    hasLocalData_never_throws [of "demoServices\<lparr>getDisabledExtensions := (\<lambda>tr. Inl (Error ''storage''))\<rparr>" "[]" "Error ''storage''" "[localA]" "[]"]
  by (simp add: hasLocalData_def getLocalExtensions_def demoServices_def localA_def pubA_def)

text \<open>
  Claim C5.  \<open>parseAndMigrateExtensions\<close> upgrades old payloads in memory, as a function of
  the payload and of the installed system extensions, and its only call is the listing of
  the system extensions (nothing is written to the remote).  For a version-1 payload every
  item with \<open>enabled = false\<close> gets \<open>disabled = true\<close> and every item loses \<open>enabled\<close>; for a
  version-2 payload every item that is none of the installed system extensions gets
  \<open>installed = true\<close>; a version-3 payload is returned as parsed, with no call at all.
\<close>

theorem parseAndMigrateExtensions_migration:
  "parse svc (content sd) = Inr extensions \<longrightarrow>
     (sd_version sd = 1 \<and> getInstalled svc tr (Some System) = Inr systemExtensions \<longrightarrow>
        parseAndMigrateExtensions svc sd tr =
          (Inr (map (\<lambda>e. e\<lparr>disabled := (if enabled e = Some False then Some True else disabled e),
                            enabled := None\<rparr>) extensions),
           tr @ [GetInstalled (Some System)]))
     \<and> (sd_version sd = 2 \<and> getInstalled svc tr (Some System) = Inr systemExtensions \<longrightarrow>
        parseAndMigrateExtensions svc sd tr =
          (Inr (map (\<lambda>e. if \<forall>l \<in> set systemExtensions. \<not> areSameExtensions (local_identifier l) (sync_identifier e)
                          then e\<lparr>installed := Some True\<rparr> else e) extensions),
           tr @ [GetInstalled (Some System)]))
     \<and> (sd_version sd = 3 \<longrightarrow> parseAndMigrateExtensions svc sd tr = (Inr extensions, tr))"
  by (auto simp add: parseAndMigrateExtensions_def migrateExtension_def list_all_iff Let_def)

text \<open>
  A version-1 payload with a disabled \<open>pub.a\<close>, a version-2 payload where \<open>pub.a\<close> is a
  system extension and \<open>pub.b\<close> is not, and a version-3 payload.
\<close>

theorem parseAndMigrateExtensions_migration_witness:
  "parseAndMigrateExtensions demoServices \<lparr>sd_version = 1, content = ''[]''\<rparr> [] =
     (Inr [(syncExt pubA)\<lparr>disabled := Some True\<rparr>, syncExt pubB], [GetInstalled (Some System)])
   \<and> parseAndMigrateExtensions
        (demoServices\<lparr>parse := (\<lambda>c. Inr [(syncExt pubA)\<lparr>installed := None\<rparr>, (syncExt pubB)\<lparr>installed := None\<rparr>]),
                      getInstalled := (\<lambda>tr t. Inr [localA\<lparr>local_type := System\<rparr>])\<rparr>)
        \<lparr>sd_version = 2, content = ''[]''\<rparr> [] =
     (Inr [(syncExt pubA)\<lparr>installed := None\<rparr>, syncExt pubB], [GetInstalled (Some System)])
   \<and> parseAndMigrateExtensions demoServices \<lparr>sd_version = 3, content = ''[]''\<rparr> [] =
     (Inr [(syncExt pubA)\<lparr>enabled := Some False\<rparr>, syncExt pubB], [])"
  using parseAndMigrateExtensions_migration [of demoServices "\<lparr>sd_version = 1, content = ''[]''\<rparr>"
      "[(syncExt pubA)\<lparr>enabled := Some False\<rparr>, syncExt pubB]" "[]" "[]"]
    parseAndMigrateExtensions_migration [of "demoServices\<lparr>parse := (\<lambda>c. Inr [(syncExt pubA)\<lparr>installed := None\<rparr>, (syncExt pubB)\<lparr>installed := None\<rparr>]),
                      getInstalled := (\<lambda>tr t. Inr [localA\<lparr>local_type := System\<rparr>])\<rparr>" "\<lparr>sd_version = 2, content = ''[]''\<rparr>"
      "[(syncExt pubA)\<lparr>installed := None\<rparr>, (syncExt pubB)\<lparr>installed := None\<rparr>]" "[]" "[localA\<lparr>local_type := System\<rparr>]"]
    parseAndMigrateExtensions_migration [of demoServices "\<lparr>sd_version = 3, content = ''[]''\<rparr>"
      "[(syncExt pubA)\<lparr>enabled := Some False\<rparr>, syncExt pubB]" "[]" "[]"]
  by (simp add: demoServices_def syncExt_def pubA_def pubB_def localA_def areSameExtensions_def truthy_def
      toLowerCase_def lowerChar_def less_eq_char_def)

lemma areSameExtensions_sym: "areSameExtensions a b = areSameExtensions b a"
  by (auto simp add: areSameExtensions_def)

lemma distinct_retainSkipped:
  "distinctIdentities skipped \<Longrightarrow> distinctIdentities (retainSkipped skipped rm)"
  by (simp add: distinctIdentities_def retainSkipped_def sorted_wrt_filter)

lemma distinct_pushSkipped:
  "distinctIdentities acc \<Longrightarrow> distinctIdentities (pushSkipped acc toAdd)"
proof (induction toAdd arbitrary: acc)
  case Nil
  then show ?case by simp
next
  case (Cons s rest)
  have "distinctIdentities
          (if \<not> list_ex (\<lambda>e. areSameExtensions (sync_identifier e) (sync_identifier s)) acc
           then acc @ [s] else acc)"
    using Cons.prems by (auto simp add: distinctIdentities_def sorted_wrt_append list_ex_iff)
  then show ?case using Cons.IH by simp
qed

lemma updateLocalExtensions_result:
  "fst (updateLocalExtensions svc add rem upd skipped tr) = Inr newSkipped \<Longrightarrow>
   \<exists>rm toAdd. newSkipped = pushSkipped (retainSkipped skipped rm) toAdd"
  by (auto simp add: updateLocalExtensions_def Let_def split: option.splits)

lemma distinctIdentities_nth:
  "distinctIdentities xs \<longleftrightarrow>
     (\<forall>i j. i < length xs \<and> j < length xs \<and> i \<noteq> j \<longrightarrow>
        \<not> areSameExtensions (sync_identifier (xs ! i)) (sync_identifier (xs ! j)))"
proof
  assume d: "distinctIdentities xs"
  show "\<forall>i j. i < length xs \<and> j < length xs \<and> i \<noteq> j \<longrightarrow>
        \<not> areSameExtensions (sync_identifier (xs ! i)) (sync_identifier (xs ! j))"
  proof (intro allI impI)
    fix i j assume h: "i < length xs \<and> j < length xs \<and> i \<noteq> j"
    show "\<not> areSameExtensions (sync_identifier (xs ! i)) (sync_identifier (xs ! j))"
    proof (cases "i < j")
      case True
      then show ?thesis using d h by (simp add: distinctIdentities_def sorted_wrt_iff_nth_less)
    next
      case False
      then have "j < i" using h by simp
      then have "\<not> areSameExtensions (sync_identifier (xs ! j)) (sync_identifier (xs ! i))"
        using d h by (simp add: distinctIdentities_def sorted_wrt_iff_nth_less)
      then show ?thesis by (simp add: areSameExtensions_sym)
    qed
  qed
next
  assume "\<forall>i j. i < length xs \<and> j < length xs \<and> i \<noteq> j \<longrightarrow>
        \<not> areSameExtensions (sync_identifier (xs ! i)) (sync_identifier (xs ! j))"
  then show "distinctIdentities xs"
    by (simp add: distinctIdentities_def sorted_wrt_iff_nth_less)
qed

text \<open>
  Claim C9.  The skip list keeps pairwise distinct identities: whenever the skip list
  handed to \<open>updateLocalExtensions\<close> has pairwise distinct identities under
  \<open>areSameExtensions\<close>, so has the skip list that it returns (the retained entries, followed
  by the newly skipped items that are not the same as an entry already there).
\<close>

theorem updateLocalExtensions_distinct_skipped:
  assumes "distinctIdentities skipped"
    and "fst (updateLocalExtensions svc add rem upd skipped tr) = Inr newSkipped"
  shows "distinctIdentities newSkipped
         \<and> (\<forall>i j. i < length newSkipped \<and> j < length newSkipped \<and> i \<noteq> j \<longrightarrow>
              \<not> areSameExtensions (sync_identifier (newSkipped ! i)) (sync_identifier (newSkipped ! j)))"
proof -
  obtain rm toAdd where r: "newSkipped = pushSkipped (retainSkipped skipped rm) toAdd"
    using updateLocalExtensions_result [OF assms(2)] by blast
  have "distinctIdentities newSkipped"
    unfolding r using assms(1) by (intro distinct_pushSkipped distinct_retainSkipped)
  then show ?thesis using distinctIdentities_nth [of newSkipped] by blast
qed

text \<open>
  A skip list holding \<open>pub.b\<close>, and two added items with the identity \<open>pub.c\<close> that the
  gallery does not resolve: \<open>pub.c\<close> enters the skip list once.
\<close>

theorem updateLocalExtensions_distinct_skipped_witness:
  "distinctIdentities [syncExt pubB]
   \<and> fst (updateLocalExtensions demoServices [syncExt pubC, (syncExt pubC)\<lparr>version := Some ''9''\<rparr>] [] []
            [syncExt pubB] []) = Inr [syncExt pubB, syncExt pubC]
   \<and> distinctIdentities [syncExt pubB, syncExt pubC]"
proof -
  have h1: "distinctIdentities [syncExt pubB]"
    by (simp add: distinctIdentities_def)
  have h2: "fst (updateLocalExtensions demoServices [syncExt pubC, (syncExt pubC)\<lparr>version := Some ''9''\<rparr>] [] []
            [syncExt pubB] []) = Inr [syncExt pubB, syncExt pubC]"
    by (simp add: run_defs demo_defs)
  show ?thesis
    using h1 h2 updateLocalExtensions_distinct_skipped [OF h1 h2] by simp
qed

text \<open>
  Claim C8 as stated fails: a cycle that changes only local state (it installs the
  formerly skipped \<open>pub.b\<close>, so that the skip list becomes empty) while the remote reference
  equals the reference of the last sync persists nothing; no \<open>UpdateLastSyncUserData\<close>
  call is made.
\<close>

theorem applyPreview_last_sync_counterexample:
  "hasLocalChanged previewLocalOnly
   \<and> skippedExtensions previewLocalOnly = [syncExt pubB]
   \<and> applyLocal demoServices previewLocalOnly [] =
       (Inr [], [BackupLocal ''pub.a;'', GetInstalled None, GetCompatibleExtension pubB None,
                 EnableExtension pubB, InstallFromGallery galleryB])
   \<and> applyPreview demoServices previewLocalOnly False [] =
       (Inr (), [BackupLocal ''pub.a;'', GetInstalled None, GetCompatibleExtension pubB None,
                 EnableExtension pubB, InstallFromGallery galleryB])"
  by (simp add: applyPreview_def applyLocal_def applyRemote_def applyLastSync_def previewLocalOnly_def
      run_defs demo_defs)

text \<open>
  Claim C8, amended.  At the end of every apply step whose local step and remote write
  raise no exception, new last-sync data is persisted if and only if the remote reference
  just written (or, when nothing is written, just read) differs from the reference of the
  last-sync data, or there is no last-sync data.  What is persisted is the remote data
  returned by the write (or the one read) together with the skip list that results from
  the local step (the given skip list when there was no local change).  When the
  references are equal nothing is persisted.
\<close>

theorem applyPreview_last_sync:
  "applyLocal svc p tr = (Inr skipped, tr1) \<and> applyRemote svc p forcePush tr1 = (Inr rud, tr2) \<longrightarrow>
     (map_option ref (lastSyncUserData p) \<noteq> Some (ref rud) \<longrightarrow>
        applyPreview svc p forcePush tr =
          (updateLastSyncUserData svc tr2 rud skipped, tr2 @ [UpdateLastSyncUserData rud skipped]))
     \<and> (map_option ref (lastSyncUserData p) = Some (ref rud) \<longrightarrow>
        applyPreview svc p forcePush tr = (Inr (), tr2))
     \<and> (remote p = None \<longrightarrow> rud = remoteUserData p \<and> tr2 = tr1)
     \<and> (remote p = Some r \<longrightarrow>
          updateRemoteUserData svc tr1 (stringify svc r)
            (if forcePush then None else Some (ref (remoteUserData p))) = Inr rud)
     \<and> (\<not> hasLocalChanged p \<longrightarrow> skipped = skippedExtensions p)"
  by (auto simp add: applyPreview_def applyLocal_def applyRemote_def applyLastSync_def Let_def)

text \<open>
  A remote write that returns the new reference \<open>r1\<close> is followed by the update; an
  unchanged reference \<open>r0\<close> is not.
\<close>

theorem applyPreview_last_sync_witness:
  "applyPreview demoServices previewRemoteOnly False [] =
     (Inr (), [UpdateRemoteUserData ''pub.b;pub.a;'' (Some ''r0''),
               UpdateLastSyncUserData \<lparr>ref = ''r1'', syncData = Some \<lparr>sd_version = 3, content = ''pub.b;pub.a;''\<rparr>\<rparr> []])
   \<and> applyPreview demoServices
        (previewRemoteOnly\<lparr>remote := None,
           lastSyncUserData := Some \<lparr>ref = ''r0'', syncData = None, ls_skippedExtensions = None\<rparr>\<rparr>) False [] =
     (Inr (), [])"
  using applyPreview_last_sync [of demoServices previewRemoteOnly "[]" "[]" "[]" False
      "\<lparr>ref = ''r1'', syncData = Some \<lparr>sd_version = 3, content = ''pub.b;pub.a;''\<rparr>\<rparr>"
      "[UpdateRemoteUserData ''pub.b;pub.a;'' (Some ''r0'')]" "[syncExt pubB, syncExt pubA]"]
    applyPreview_last_sync [of demoServices "previewRemoteOnly\<lparr>remote := None,
           lastSyncUserData := Some \<lparr>ref = ''r0'', syncData = None, ls_skippedExtensions = None\<rparr>\<rparr>" "[]" "[]" "[]" False
      "\<lparr>ref = ''r0'', syncData = None\<rparr>" "[]" "[]"]
  by (simp add: applyLocal_def applyRemote_def previewRemoteOnly_def demo_defs Let_def)

lemma compare_le: "compare a b \<le> 0 \<longleftrightarrow> a \<le> b"
  by (auto simp add: compare_def)

lemma formatCompare_le:
  "formatCompare e1 e2 \<le> 0 \<longleftrightarrow>
     (\<not> truthy (uuid (sync_identifier e1)) \<and> truthy (uuid (sync_identifier e2)))
     \<or> (truthy (uuid (sync_identifier e1)) = truthy (uuid (sync_identifier e2))
          \<and> ext_id (sync_identifier e1) \<le> ext_id (sync_identifier e2))"
  by (auto simp add: formatCompare_def compare_le)

lemma formatCompare_total: "\<not> formatCompare a b \<le> 0 \<Longrightarrow> formatCompare b a \<le> 0"
  by (auto simp add: formatCompare_le)

lemma formatCompare_trans:
  "formatCompare a b \<le> 0 \<Longrightarrow> formatCompare b c \<le> 0 \<Longrightarrow> formatCompare a c \<le> 0"
  by (auto simp add: formatCompare_le)

lemma set_insertBy: "set (insertBy cmp x ys) = insert x (set ys)"
  by (induction ys) auto

lemma mset_insertBy: "mset (insertBy cmp x ys) = add_mset x (mset ys)"
  by (induction ys) auto

lemma sorted_insertBy:
  "sorted_wrt (\<lambda>a b. formatCompare a b \<le> 0) ys \<Longrightarrow>
   sorted_wrt (\<lambda>a b. formatCompare a b \<le> 0) (insertBy formatCompare x ys)"
proof (induction ys)
  case Nil
  then show ?case by simp
next
  case (Cons y ys)
  show ?case
  proof (cases "formatCompare x y \<le> 0")
    case True
    then have "\<forall>z \<in> set ys. formatCompare x z \<le> 0"
      using Cons.prems formatCompare_trans by auto
    then show ?thesis using True Cons.prems by simp
  next
    case False
    then have "formatCompare y x \<le> 0" by (rule formatCompare_total)
    then show ?thesis using False Cons by (auto simp add: set_insertBy)
  qed
qed

lemma sorted_arraySort: "sorted_wrt (\<lambda>a b. formatCompare a b \<le> 0) (arraySort formatCompare xs)"
  by (induction xs) (simp_all add: arraySort_def sorted_insertBy)

lemma mset_arraySort: "mset (arraySort cmp xs) = mset xs"
  by (induction xs) (simp_all add: arraySort_def mset_insertBy)

lemma canonical_arraySort: "spec_canonical (arraySort formatCompare xs)"
  unfolding spec_canonical_def
  by (rule sorted_wrt_mono_rel [OF _ sorted_arraySort])
     (auto simp add: formatCompare_le spec_canonicalBefore_def)

lemma extendsBy_iff: "extendsBy P tr out \<longleftrightarrow> (\<exists>evs. snd out = tr @ evs \<and> list_all P evs)"
proof
  assume "extendsBy P tr out"
  then have "snd out = tr @ newCalls tr out \<and> list_all P (newCalls tr out)"
    by (metis extendsBy_def newCalls_def append_take_drop_id)
  then show "\<exists>evs. snd out = tr @ evs \<and> list_all P evs" by blast
next
  assume "\<exists>evs. snd out = tr @ evs \<and> list_all P evs"
  then show "extendsBy P tr out" by (auto simp add: extendsBy_def newCalls_def)
qed

lemma extendsBy_base: "list_all P evs \<Longrightarrow> extendsBy P tr (x, tr @ evs)"
  by (auto simp add: extendsBy_iff)

lemma extendsBy_refl: "extendsBy P tr (x, tr)"
  by (simp add: extendsBy_iff)

lemma extendsBy_app: "list_all P evs \<Longrightarrow> extendsBy P (tr @ evs) out \<Longrightarrow> extendsBy P tr out"
  by (auto simp add: extendsBy_iff)

lemma extendsBy_trans:
  "extendsBy P tr (x, tr1) \<Longrightarrow> extendsBy P tr1 out \<Longrightarrow> extendsBy P tr out"
  by (auto simp add: extendsBy_iff)

lemma extendsBy_mono: "extendsBy P tr out \<Longrightarrow> (\<And>c. P c \<Longrightarrow> Q c) \<Longrightarrow> extendsBy Q tr out"
  by (auto simp add: extendsBy_iff list_all_iff)

lemma extendsBy_fst: "extendsBy P tr (x, tr') \<Longrightarrow> extendsBy P tr (y, tr')"
  by (simp add: extendsBy_iff)

lemma extendsBy_member: "extendsBy P tr out \<Longrightarrow> c \<in> set (newCalls tr out) \<Longrightarrow> P c"
  by (simp add: extendsBy_def list_all_iff)

lemma updateLocalExtensions_calls:
  "extendsBy localCall tr (updateLocalExtensions svc ad rm up skipped tr)"
  using updateLocalExtensions_trace [of svc ad rm up skipped tr] by (simp add: extendsBy_iff)

lemma localCall_applyCall: "localCall c \<Longrightarrow> applyCall svc p forcePush c"
  by (cases c) (simp_all add: applyCall_def)

lemma applyLocal_calls: "extendsBy (applyCall svc p forcePush) tr (applyLocal svc p tr)"
proof -
  have "extendsBy (applyCall svc p forcePush) (tr @ [BackupLocal (stringify svc (localExtensions p))])
          (updateLocalExtensions svc (added p) (removed p) (updated p) (skippedExtensions p)
             (tr @ [BackupLocal (stringify svc (localExtensions p))]))"
    by (rule extendsBy_mono [OF updateLocalExtensions_calls]) (rule localCall_applyCall)
  then have "extendsBy (applyCall svc p forcePush) tr
          (updateLocalExtensions svc (added p) (removed p) (updated p) (skippedExtensions p)
             (tr @ [BackupLocal (stringify svc (localExtensions p))]))"
    by (auto intro: extendsBy_app [where evs = "[BackupLocal (stringify svc (localExtensions p))]"]
        simp add: applyCall_def)
  then show ?thesis
    by (auto simp add: applyLocal_def Let_def extendsBy_refl extendsBy_base applyCall_def split: sum.splits)
qed

lemma applyRemote_calls: "extendsBy (applyCall svc p forcePush) tr (applyRemote svc p forcePush tr)"
  by (simp add: applyRemote_def extendsBy_iff applyCall_def Let_def split: option.splits)

lemma applyLastSync_calls: "extendsBy (applyCall svc p forcePush) tr (applyLastSync svc p rud skipped tr)"
  by (simp add: applyLastSync_def extendsBy_iff applyCall_def)

lemma applyPreview_calls: "extendsBy (applyCall svc p forcePush) tr (applyPreview svc p forcePush tr)"
proof -
  obtain r1 tr1 where a: "applyLocal svc p tr = (r1, tr1)" by (cases "applyLocal svc p tr")
  have e1: "extendsBy (applyCall svc p forcePush) tr (r1, tr1)"
    using applyLocal_calls [of svc p forcePush tr] by (simp add: a)
  show ?thesis
  proof (cases r1)
    case (Inl err)
    then show ?thesis using e1 a by (auto simp add: applyPreview_def elim: extendsBy_fst)
  next
    case (Inr skipped)
    obtain r2 tr2 where b: "applyRemote svc p forcePush tr1 = (r2, tr2)"
      by (cases "applyRemote svc p forcePush tr1")
    have e2: "extendsBy (applyCall svc p forcePush) tr (r2, tr2)"
      using applyRemote_calls [of svc p forcePush tr1] e1 extendsBy_trans by (metis b)
    show ?thesis
    proof (cases r2)
      case (Inl err)
      then show ?thesis using e2 a b Inr by (auto simp add: applyPreview_def elim: extendsBy_fst)
    next
      case (Inr rud)
      have "extendsBy (applyCall svc p forcePush) tr (applyLastSync svc p rud skipped tr2)"
        using applyLastSync_calls [of svc p forcePush tr2 rud skipped] e2 extendsBy_trans by metis
      then show ?thesis using a b Inr \<open>r1 = Inr skipped\<close> by (simp add: applyPreview_def)
    qed
  qed
qed

text \<open>
  Claim C7 as stated fails: \<open>apply\<close> hands the \<open>remote\<close> list to \<open>JSON.stringify\<close> as it
  stands.  A list with \<open>pub.b\<close> (which has a uuid) before \<open>pub.a\<close> (which has none) is
  written in that order, which is not canonical; the canonical order, the one that the
  sort of \<open>format\<close> produces, serialises differently.
\<close>

theorem remote_write_order_counterexample:
  "applyPreview demoServices previewRemoteOnly False [] =
     (Inr (), [UpdateRemoteUserData ''pub.b;pub.a;'' (Some ''r0''),
               UpdateLastSyncUserData \<lparr>ref = ''r1'', syncData = Some \<lparr>sd_version = 3, content = ''pub.b;pub.a;''\<rparr>\<rparr> []])
   \<and> remote previewRemoteOnly = Some [syncExt pubB, syncExt pubA]
   \<and> \<not> spec_canonical [syncExt pubB, syncExt pubA]
   \<and> arraySort formatCompare [syncExt pubB, syncExt pubA] = [syncExt pubA, syncExt pubB]
   \<and> stringify demoServices [syncExt pubA, syncExt pubB] = ''pub.a;pub.b;''"
  by (simp add: applyPreview_def applyLocal_def applyRemote_def applyLastSync_def previewRemoteOnly_def
      spec_canonical_def spec_canonicalBefore_def arraySort_def formatCompare_def demo_defs Let_def)

text \<open>
  Claim C7, amended.  Whenever \<open>apply\<close> writes to the remote store, the content is the
  serialisation of the non-null \<open>remote\<close> list of the preview in the order in which the list
  was given; \<open>apply\<close> does not reorder.  The canonical order is what \<open>format\<close> (used by
  \<open>resolveContent\<close>) produces: it serialises a permutation of its input in which no item
  with a uuid precedes an item without one and the ids ascend within each group.
\<close>

theorem remote_write_order:
  "(UpdateRemoteUserData c expected \<in> set (newCalls tr (applyPreview svc p forcePush tr)) \<longrightarrow>
      (\<exists>r. remote p = Some r \<and> c = stringify svc r))
   \<and> format svc xs = formatJson svc (stringify svc (arraySort formatCompare xs))
   \<and> spec_canonical (arraySort formatCompare xs)
   \<and> mset (arraySort formatCompare xs) = mset xs"
proof -
  have "UpdateRemoteUserData c expected \<in> set (newCalls tr (applyPreview svc p forcePush tr)) \<longrightarrow>
      (\<exists>r. remote p = Some r \<and> c = stringify svc r)"
  proof
    assume "UpdateRemoteUserData c expected \<in> set (newCalls tr (applyPreview svc p forcePush tr))"
    then have "applyCall svc p forcePush (UpdateRemoteUserData c expected)"
      by (rule extendsBy_member [OF applyPreview_calls])
    then show "\<exists>r. remote p = Some r \<and> c = stringify svc r"
      by (simp add: applyCall_def split: option.splits)
  qed
  then show ?thesis
    by (simp add: format_def canonical_arraySort mset_arraySort)
qed

text \<open>The write of the run above, and the sort of \<open>format\<close> on the same list.\<close>

theorem remote_write_order_witness:
  "UpdateRemoteUserData ''pub.b;pub.a;'' (Some ''r0'')
     \<in> set (newCalls [] (applyPreview demoServices previewRemoteOnly False []))
   \<and> remote previewRemoteOnly = Some [syncExt pubB, syncExt pubA]
   \<and> ''pub.b;pub.a;'' = stringify demoServices [syncExt pubB, syncExt pubA]
   \<and> spec_canonical (arraySort formatCompare [syncExt pubB, syncExt pubA])"
  using remote_write_order [of "''pub.b;pub.a;''" "Some ''r0''" "[]" demoServices previewRemoteOnly False
      "[syncExt pubB, syncExt pubA]"]
  by (simp add: newCalls_def applyPreview_def applyLocal_def applyRemote_def applyLastSync_def
      previewRemoteOnly_def demo_defs Let_def)

lemma applyCall_pushCall: "applyCall svc p True c \<Longrightarrow> pushCall c"
  by (cases c) (simp_all add: applyCall_def pushCall_def split: option.splits)

lemma snd_getLocalExtensions: "snd (getLocalExtensions svc ls t) = t @ [GetDisabledExtensions]"
  by (simp add: getLocalExtensions_def split: sum.splits)

lemma pushBody_applies:
  assumes "getInstalled svc (tr @ [SetStatus Syncing]) None = Inr ls"
    and "getLocalExtensions svc ls (tr @ [SetStatus Syncing, GetInstalled None]) = (Inr locals, tr1)"
    and "getLastSyncUserData svc (tr1 @ [Merge locals None None [] (getIgnoredExtensions svc tr1 ls)])
           = Inr lastSync"
    and "getRemoteUserData svc
           (tr1 @ [Merge locals None None [] (getIgnoredExtensions svc tr1 ls), GetLastSyncUserData])
           lastSync = Inr rud"
  shows "pushBody svc tr =
           applyPreview svc
             (pushPreview (merge svc locals None None [] (getIgnoredExtensions svc tr1 ls)) locals lastSync rud)
             True
             (tr1 @ [Merge locals None None [] (getIgnoredExtensions svc tr1 ls), GetLastSyncUserData,
                     GetRemoteUserData lastSync])"
  using assms by (simp add: pushBody_def Let_def)

lemma pushBody_merges:
  assumes ls: "getInstalled svc (tr @ [SetStatus Syncing]) None = Inr ls"
    and g: "getLocalExtensions svc ls (tr @ [SetStatus Syncing, GetInstalled None]) = (Inr locals, tr1)"
  shows "\<exists>evs. snd (pushBody svc tr) =
           tr1 @ [Merge locals None None [] (getIgnoredExtensions svc tr1 ls)] @ evs"
proof -
  let ?m = "Merge locals None None [] (getIgnoredExtensions svc tr1 ls)"
  show ?thesis
  proof (cases "getLastSyncUserData svc (tr1 @ [?m])")
    case (Inl err)
    then show ?thesis using ls g by (simp add: pushBody_def Let_def)
  next
    case lastSync: (Inr lastSync)
    show ?thesis
    proof (cases "getRemoteUserData svc (tr1 @ [?m, GetLastSyncUserData]) lastSync")
      case (Inl err)
      then show ?thesis using ls g lastSync by (simp add: pushBody_def Let_def)
    next
      case (Inr rud)
      let ?p = "pushPreview (merge svc locals None None [] (getIgnoredExtensions svc tr1 ls)) locals lastSync rud"
      let ?t0 = "tr1 @ [?m, GetLastSyncUserData, GetRemoteUserData lastSync]"
      obtain evs where "snd (applyPreview svc ?p True ?t0) = ?t0 @ evs"
        using applyPreview_calls [of svc ?p True ?t0] by (auto simp add: extendsBy_iff)
      then show ?thesis
        using pushBody_applies [OF ls g lastSync Inr] by simp
    qed
  qed
qed

lemma applyPreview_writes:
  assumes "applyLocal svc p t0 = (Inr sk, trl)" and "remote p = Some r"
  shows "\<exists>evs. snd (applyPreview svc p forcePush t0) =
           trl @ [UpdateRemoteUserData (stringify svc r)
                   (if forcePush then None else Some (ref (remoteUserData p)))] @ evs"
  using assms
  by (auto simp add: applyPreview_def applyRemote_def applyLastSync_def Let_def split: sum.splits)

lemma pushBody_calls: "extendsBy pushCall tr (pushBody svc tr)"
proof (cases "getInstalled svc (tr @ [SetStatus Syncing]) None")
  case (Inl err)
  then show ?thesis by (simp add: pushBody_def extendsBy_iff pushCall_def)
next
  case (Inr ls)
  obtain r1 tr1 where g: "getLocalExtensions svc ls (tr @ [SetStatus Syncing, GetInstalled None]) = (r1, tr1)"
    by (cases "getLocalExtensions svc ls (tr @ [SetStatus Syncing, GetInstalled None])")
  have t1: "tr1 = tr @ [SetStatus Syncing, GetInstalled None, GetDisabledExtensions]"
    using snd_getLocalExtensions [of svc ls "tr @ [SetStatus Syncing, GetInstalled None]"] by (simp add: g)
  show ?thesis
  proof (cases r1)
    case (Inl err)
    then show ?thesis using Inr g t1 by (simp add: pushBody_def extendsBy_iff pushCall_def)
  next
    case locals: (Inr locals)
    define ig where "ig = getIgnoredExtensions svc tr1 ls"
    define tr2 where "tr2 = tr1 @ [Merge locals None None [] ig]"
    show ?thesis
    proof (cases "getLastSyncUserData svc tr2")
      case (Inl err)
      then show ?thesis using Inr g t1 locals
        by (simp add: pushBody_def extendsBy_iff pushCall_def Let_def tr2_def ig_def)
    next
      case ls': (Inr lastSync)
      show ?thesis
      proof (cases "getRemoteUserData svc (tr2 @ [GetLastSyncUserData]) lastSync")
        case (Inl err)
        then show ?thesis using Inr g t1 locals ls'
          by (simp add: pushBody_def extendsBy_iff pushCall_def Let_def tr2_def ig_def)
      next
        case rud: (Inr rud)
        define p where "p = pushPreview (merge svc locals None None [] ig) locals lastSync rud"
        define pre where "pre = [SetStatus Syncing, GetInstalled None, GetDisabledExtensions,
          Merge locals None None [] ig, GetLastSyncUserData, GetRemoteUserData lastSync]"
        have body: "pushBody svc tr = applyPreview svc p True (tr @ pre)"
          using Inr g t1 locals ls' rud
          by (simp add: pushBody_def Let_def tr2_def ig_def p_def pre_def)
        have "extendsBy pushCall (tr @ pre) (applyPreview svc p True (tr @ pre))"
          by (rule extendsBy_mono [OF applyPreview_calls]) (rule applyCall_pushCall)
        moreover have "list_all pushCall pre" by (simp add: pre_def pushCall_def)
        ultimately have "extendsBy pushCall tr (applyPreview svc p True (tr @ pre))"
          by (rule extendsBy_app [rotated])
        then show ?thesis by (simp add: body)
      qed
    qed
  qed
qed

lemma push_calls: "extendsBy pushCall tr (push svc tr)"
proof (cases "isEnabled svc tr")
  case False
  then show ?thesis by (simp add: push_def extendsBy_refl)
next
  case True
  obtain res tr' where b: "pushBody svc tr = (res, tr')" by (cases "pushBody svc tr")
  have "extendsBy pushCall tr (res, tr')" using pushBody_calls [of tr svc] by (simp add: b)
  then have "extendsBy pushCall tr (res, tr' @ [SetStatus Idle])"
    by (auto simp add: extendsBy_iff pushCall_def)
  then show ?thesis using True by (simp add: push_def b)
qed

lemma push_enabled: "isEnabled svc tr \<Longrightarrow> snd (push svc tr) = snd (pushBody svc tr) @ [SetStatus Idle]"
  by (simp add: push_def split: prod.splits)

text \<open>
  Claim C6.  \<open>push\<close> takes the local items as authoritative and performs the write
  unconditionally.  Every call of \<open>merge\<close> that a run of \<open>push\<close> makes has no remote
  extensions, no last-sync extensions and an empty skip list, and every remote write of the
  run carries no expected reference.  And the calls are made: once \<open>push\<close> is enabled and
  has computed the local extensions, it calls \<open>merge\<close> on them with those arguments; when
  moreover the last-sync and remote data are read, the merge yields a non-null remote list
  and the local step raises no exception, it writes the serialised list with no expected
  reference, whatever reference the remote data carries.
\<close>

theorem push_overwrites:
  "(Merge locals' remoteExtensions lastSyncExtensions skipped ignored \<in> set (newCalls tr (push svc tr)) \<longrightarrow>
      remoteExtensions = None \<and> lastSyncExtensions = None \<and> skipped = [])
   \<and> (UpdateRemoteUserData c expected \<in> set (newCalls tr (push svc tr)) \<longrightarrow> expected = None)
   \<and> (isEnabled svc tr
       \<and> getInstalled svc (tr @ [SetStatus Syncing]) None = Inr ls
       \<and> getLocalExtensions svc ls (tr @ [SetStatus Syncing, GetInstalled None]) = (Inr locals, tr1)
      \<longrightarrow> Merge locals None None [] (getIgnoredExtensions svc tr1 ls) \<in> set (newCalls tr (push svc tr)))
   \<and> (isEnabled svc tr
       \<and> getInstalled svc (tr @ [SetStatus Syncing]) None = Inr ls
       \<and> getLocalExtensions svc ls (tr @ [SetStatus Syncing, GetInstalled None]) = (Inr locals, tr1)
       \<and> getLastSyncUserData svc (tr1 @ [Merge locals None None [] (getIgnoredExtensions svc tr1 ls)])
           = Inr lastSync
       \<and> getRemoteUserData svc
           (tr1 @ [Merge locals None None [] (getIgnoredExtensions svc tr1 ls), GetLastSyncUserData])
           lastSync = Inr rud
       \<and> m_remote (merge svc locals None None [] (getIgnoredExtensions svc tr1 ls)) = Some r
       \<and> fst (applyLocal svc
                (pushPreview (merge svc locals None None [] (getIgnoredExtensions svc tr1 ls))
                   locals lastSync rud)
                (tr1 @ [Merge locals None None [] (getIgnoredExtensions svc tr1 ls), GetLastSyncUserData,
                        GetRemoteUserData lastSync])) = Inr sk
      \<longrightarrow> UpdateRemoteUserData (stringify svc r) None \<in> set (newCalls tr (push svc tr)))"
proof -
  have a: "Merge locals' remoteExtensions lastSyncExtensions skipped ignored \<in> set (newCalls tr (push svc tr)) \<longrightarrow>
      remoteExtensions = None \<and> lastSyncExtensions = None \<and> skipped = []"
  proof
    assume "Merge locals' remoteExtensions lastSyncExtensions skipped ignored \<in> set (newCalls tr (push svc tr))"
    then have "pushCall (Merge locals' remoteExtensions lastSyncExtensions skipped ignored)"
      by (rule extendsBy_member [OF push_calls])
    then show "remoteExtensions = None \<and> lastSyncExtensions = None \<and> skipped = []"
      by (simp add: pushCall_def)
  qed
  have b: "UpdateRemoteUserData c expected \<in> set (newCalls tr (push svc tr)) \<longrightarrow> expected = None"
  proof
    assume "UpdateRemoteUserData c expected \<in> set (newCalls tr (push svc tr))"
    then have "pushCall (UpdateRemoteUserData c expected)"
      by (rule extendsBy_member [OF push_calls])
    then show "expected = None" by (simp add: pushCall_def)
  qed
  let ?m = "Merge locals None None [] (getIgnoredExtensions svc tr1 ls)"
  let ?p = "pushPreview (merge svc locals None None [] (getIgnoredExtensions svc tr1 ls)) locals lastSync rud"
  let ?t0 = "tr1 @ [?m, GetLastSyncUserData, GetRemoteUserData lastSync]"
  have c: "isEnabled svc tr
       \<and> getInstalled svc (tr @ [SetStatus Syncing]) None = Inr ls
       \<and> getLocalExtensions svc ls (tr @ [SetStatus Syncing, GetInstalled None]) = (Inr locals, tr1)
      \<longrightarrow> ?m \<in> set (newCalls tr (push svc tr))"
  proof
    assume h: "isEnabled svc tr
       \<and> getInstalled svc (tr @ [SetStatus Syncing]) None = Inr ls
       \<and> getLocalExtensions svc ls (tr @ [SetStatus Syncing, GetInstalled None]) = (Inr locals, tr1)"
    have t1: "tr1 = tr @ [SetStatus Syncing, GetInstalled None, GetDisabledExtensions]"
      using snd_getLocalExtensions [of svc ls "tr @ [SetStatus Syncing, GetInstalled None]"] h by simp
    obtain evs where "snd (pushBody svc tr) = tr1 @ [?m] @ evs"
      using pushBody_merges [of svc tr ls locals tr1] h by blast
    then have "snd (push svc tr) =
        tr @ ([SetStatus Syncing, GetInstalled None, GetDisabledExtensions, ?m] @ evs @ [SetStatus Idle])"
      using h by (simp add: push_enabled t1)
    then show "?m \<in> set (newCalls tr (push svc tr))"
      by (simp add: newCalls_def)
  qed
  have d: "isEnabled svc tr
       \<and> getInstalled svc (tr @ [SetStatus Syncing]) None = Inr ls
       \<and> getLocalExtensions svc ls (tr @ [SetStatus Syncing, GetInstalled None]) = (Inr locals, tr1)
       \<and> getLastSyncUserData svc (tr1 @ [?m]) = Inr lastSync
       \<and> getRemoteUserData svc (tr1 @ [?m, GetLastSyncUserData]) lastSync = Inr rud
       \<and> m_remote (merge svc locals None None [] (getIgnoredExtensions svc tr1 ls)) = Some r
       \<and> fst (applyLocal svc ?p ?t0) = Inr sk
      \<longrightarrow> UpdateRemoteUserData (stringify svc r) None \<in> set (newCalls tr (push svc tr))"
  proof
    assume h: "isEnabled svc tr
       \<and> getInstalled svc (tr @ [SetStatus Syncing]) None = Inr ls
       \<and> getLocalExtensions svc ls (tr @ [SetStatus Syncing, GetInstalled None]) = (Inr locals, tr1)
       \<and> getLastSyncUserData svc (tr1 @ [?m]) = Inr lastSync
       \<and> getRemoteUserData svc (tr1 @ [?m, GetLastSyncUserData]) lastSync = Inr rud
       \<and> m_remote (merge svc locals None None [] (getIgnoredExtensions svc tr1 ls)) = Some r
       \<and> fst (applyLocal svc ?p ?t0) = Inr sk"
    have t1: "tr1 = tr @ [SetStatus Syncing, GetInstalled None, GetDisabledExtensions]"
      using snd_getLocalExtensions [of svc ls "tr @ [SetStatus Syncing, GetInstalled None]"] h by simp
    have body: "pushBody svc tr = applyPreview svc ?p True ?t0"
      using pushBody_applies [of svc tr ls locals tr1 lastSync rud] h by blast
    obtain trl where l: "applyLocal svc ?p ?t0 = (Inr sk, trl)"
      using h by (cases "applyLocal svc ?p ?t0") simp
    obtain evl where trl: "trl = ?t0 @ evl"
      using applyLocal_calls [of svc ?p True ?t0] by (auto simp add: extendsBy_iff l)
    have rp: "remote ?p = Some r" using h by (simp add: pushPreview_def)
    obtain evs where "snd (applyPreview svc ?p True ?t0) =
        trl @ [UpdateRemoteUserData (stringify svc r) None] @ evs"
      using applyPreview_writes [OF l rp, of True] by auto
    then have "snd (push svc tr) =
        tr @ ([SetStatus Syncing, GetInstalled None, GetDisabledExtensions, ?m, GetLastSyncUserData,
               GetRemoteUserData lastSync] @ evl @ [UpdateRemoteUserData (stringify svc r) None]
              @ evs @ [SetStatus Idle])"
      using h by (simp add: push_enabled body trl t1)
    then show "UpdateRemoteUserData (stringify svc r) None \<in> set (newCalls tr (push svc tr))"
      by (simp add: newCalls_def)
  qed
  from a b c d show ?thesis by blast
qed

text \<open>A run of \<open>push\<close> with one local extension: the merge call and the write.\<close>

theorem push_overwrites_witness:
  "push demoServices [] =
     (Inr (), [SetStatus Syncing, GetInstalled None, GetDisabledExtensions,
               Merge [syncExt pubA] None None [] [], GetLastSyncUserData, GetRemoteUserData None,
               UpdateRemoteUserData ''pub.a;'' None,
               UpdateLastSyncUserData \<lparr>ref = ''r1'', syncData = Some \<lparr>sd_version = 3, content = ''pub.a;''\<rparr>\<rparr> [],
               SetStatus Idle])
   \<and> isEnabled demoServices []
   \<and> getInstalled demoServices [SetStatus Syncing] None = Inr [localA]
   \<and> getLocalExtensions demoServices [localA] [SetStatus Syncing, GetInstalled None] =
       (Inr [syncExt pubA], [SetStatus Syncing, GetInstalled None, GetDisabledExtensions])
   \<and> Merge [syncExt pubA] None None [] [] \<in> set (newCalls [] (push demoServices []))
   \<and> UpdateRemoteUserData ''pub.a;'' None \<in> set (newCalls [] (push demoServices []))"
  using push_overwrites [where tr = "[]" and svc = demoServices and locals' = "[syncExt pubA]"
      and remoteExtensions = None and lastSyncExtensions = None and skipped = "[]" and ignored = "[]"
      and c = "''pub.a;''" and expected = None and ls = "[localA]" and locals = "[syncExt pubA]"
      and ?tr1.0 = "[SetStatus Syncing, GetInstalled None, GetDisabledExtensions]"
      and lastSync = None and rud = "\<lparr>ref = ''r0'', syncData = None\<rparr>" and r = "[syncExt pubA]"
      and sk = "[]"]
  by (simp add: newCalls_def push_def pushBody_def pushPreview_def getLocalExtensions_def applyPreview_def
      applyLocal_def applyRemote_def applyLastSync_def demo_defs Let_def)







end
